theory Spec2Isabelle
  imports Main "HOL-Library.Char_ord" "HOL-Library.List_Lexorder"
begin

section \<open>Strings and paths as the scripts use them\<close>

text \<open>
  Python strings are modelled as \<open>string\<close>; a \<open>char\<close> stands for one code point
  below 256. The order on strings (used by \<open>sorted\<close>) is the lexicographic order on
  code points, which is what \<open>HOL-Library.List_Lexorder\<close> over \<open>HOL-Library.Char_ord\<close>
  gives.
\<close>

text \<open>\<open>x in s\<close> on strings: \<open>x\<close> occurs in \<open>s\<close> as a contiguous substring.\<close>

fun str_in :: "string \<Rightarrow> string \<Rightarrow> bool" where
  "str_in x [] = (x = [])"
| "str_in x (c # cs) = (take (length x) (c # cs) = x \<or> str_in x cs)"

text \<open>\<open>s.endswith(suf)\<close>.\<close>

definition endswith :: "string \<Rightarrow> string \<Rightarrow> bool" where
  "endswith s suf = (length suf \<le> length s \<and> drop (length s - length suf) s = suf)"

text \<open>\<open>s.startswith(pre)\<close>.\<close>

definition startswith :: "string \<Rightarrow> string \<Rightarrow> bool" where
  "startswith s pre = (take (length pre) s = pre)"

text \<open>\<open>str.isspace\<close> on one character, for the code points below 256.\<close>

definition py_isspace :: "char \<Rightarrow> bool" where
  "py_isspace c =
     (let n = (of_char c :: nat)
      in (9 \<le> n \<and> n \<le> 13) \<or> (28 \<le> n \<and> n \<le> 32) \<or> n = 133 \<or> n = 160)"

text \<open>\<open>s.strip()\<close>: leading and trailing whitespace removed.\<close>

definition strip :: "string \<Rightarrow> string" where
  "strip s = rev (dropWhile py_isspace (rev (dropWhile py_isspace s)))"

text \<open>
  \<open>s.split('\n')\<close>: the pieces between newlines; the empty string gives one empty
  piece. The \<open>[]\<close> branch of the case is never taken (the result is never empty).
\<close>

fun split_nl :: "string \<Rightarrow> string list" where
  "split_nl [] = [[]]"
| "split_nl (c # cs) =
     (if c = CHR 0x0A then [] # split_nl cs
      else (case split_nl cs of [] \<Rightarrow> [[c]] | l # ls \<Rightarrow> (c # l) # ls))"

text \<open>
  \<open>'\n'.join(ls)\<close>: the inverse of the split, used to say what the lines of an
  output are.
\<close>

fun join_nl :: "string list \<Rightarrow> string" where
  "join_nl [] = []"
| "join_nl [l] = l"
| "join_nl (l # l' # ls) = l @ [CHR 0x0A] @ join_nl (l' # ls)"

text \<open>\<open>os.path.join(a, b)\<close> of posixpath, for two arguments.\<close>

definition os_path_join :: "string \<Rightarrow> string \<Rightarrow> string" where
  "os_path_join a b =
     (if startswith b ''/'' then b
      else if a = [] \<or> endswith a ''/'' then a @ b
      else a @ ''/'' @ b)"

text \<open>\<open>os.path.basename(p)\<close>: what follows the last slash.\<close>

definition basename :: "string \<Rightarrow> string" where
  "basename p = rev (takeWhile (\<lambda>c. c \<noteq> CHR ''/'') (rev p))"

text \<open>
  \<open>os.path.splitext(p)[0]\<close>: the path without its extension. The extension starts at
  the last dot of the last component, unless only dots precede it there.
\<close>

definition splitext_root :: "string \<Rightarrow> string" where
  "splitext_root p =
     (let b = basename p;
          rest = dropWhile (\<lambda>c. c \<noteq> CHR ''.'') (rev b)
      in case rest of
           [] \<Rightarrow> p
         | d # before_rev \<Rightarrow>
             if \<exists>c \<in> set before_rev. c \<noteq> CHR ''.''
             then take (length p - length b) p @ rev before_rev
             else p)"

section \<open>The file tree and \<open>os.walk\<close>\<close>

text \<open>
  A directory holds named entries in the order the operating system lists them.
  \<open>os.walk(top)\<close> (top-down, errors ignored, which is its default) yields for every
  directory the triple of its path, the names of its subdirectories and the names of
  its files, a directory before its subdirectories. A top that is not a directory
  yields nothing; neither does a top that does not exist (\<open>None\<close> in \<open>walk_root\<close>).
\<close>

datatype fs_node = File | Dir "(string \<times> fs_node) list"

fun is_dir :: "fs_node \<Rightarrow> bool" where
  "is_dir File = False"
| "is_dir (Dir es) = True"

fun os_walk :: "string \<Rightarrow> fs_node \<Rightarrow> (string \<times> string list \<times> string list) list" where
  "os_walk tp File = []"
| "os_walk tp (Dir es) =
     (tp, map fst (filter (\<lambda>e. is_dir (snd e)) es),
           map fst (filter (\<lambda>e. \<not> is_dir (snd e)) es))
     # concat (map (\<lambda>e. os_walk (os_path_join tp (fst e)) (snd e)) es)"

definition walk_root :: "string \<Rightarrow> fs_node option \<Rightarrow> (string \<times> string list \<times> string list) list" where
  "walk_root tp root = (case root of None \<Rightarrow> [] | Some n \<Rightarrow> os_walk tp n)"

section \<open>The external text search\<close>

text \<open>
  \<open>subprocess.run(argv, capture_output=True, text=True, timeout=t)\<close> either raises
  or returns the captured standard output. The search tool is a parameter
  \<open>rg\<close>, from the argument vector to that outcome.
\<close>

datatype proc_error = TimeoutExpired | FileNotFoundError | OtherError string

type_synonym search_tool = "string list \<Rightarrow> proc_error + string"

text \<open>The lines kept from an output: the non-empty pieces of the stripped output.\<close>

definition output_lines :: "string \<Rightarrow> string list" where
  "output_lines out = filter (\<lambda>line. line \<noteq> []) (split_nl (strip out))"

section \<open>The report: a dictionary from category to list\<close>

type_synonym report = "(string \<times> string list) list"

definition dict_append :: "report \<Rightarrow> string \<Rightarrow> string \<Rightarrow> report" where
  "dict_append d key v = map (\<lambda>(k, vs). if k = key then (k, vs @ [v]) else (k, vs)) d"

definition dict_get :: "report \<Rightarrow> string \<Rightarrow> string list" where
  "dict_get d key = (case map_of d key of None \<Rightarrow> [] | Some vs \<Rightarrow> vs)"

text \<open>The total printed at the end: the lengths of the lists, summed.\<close>

definition report_total :: "report \<Rightarrow> nat" where
  "report_total d = sum_list (map (\<lambda>(k, vs). length vs) d)"

definition reported :: "report \<Rightarrow> string list" where
  "reported d = concat (map snd d)"

section \<open>The threshold variant (find-unused.py)\<close>

definition SRC_DIR :: string where
  "SRC_DIR = ''src''"

definition EXCLUDE_PATTERNS :: "string list" where
  "EXCLUDE_PATTERNS =
     [''index.ts'', ''index.tsx'', ''.test.ts'', ''.test.tsx'', ''.d.ts'', ''App.tsx'']"

definition should_check :: "string \<Rightarrow> bool" where
  "should_check filepath = (\<not> (\<exists>pattern \<in> set EXCLUDE_PATTERNS. str_in pattern filepath))"

definition is_source_name :: "string \<Rightarrow> bool" where
  "is_source_name filename = (endswith filename ''.ts'' \<or> endswith filename ''.tsx'')"

definition get_all_source_files :: "fs_node option \<Rightarrow> string list" where
  "get_all_source_files root =
     concat (map (\<lambda>(r, dirs, filenames).
               filter should_check
                 (map (os_path_join r) (filter is_source_name filenames)))
             (walk_root SRC_DIR root))"

definition count_imports :: "search_tool \<Rightarrow> string \<Rightarrow> string \<Rightarrow> nat" where
  "count_imports rg filename_without_ext src_dir =
     (case rg [''rg'', ''-l'', filename_without_ext, src_dir] of
        Inl e \<Rightarrow> 0
      | Inr out \<Rightarrow> length (output_lines out))"

definition unused_categories :: report where
  "unused_categories =
     [(''components'', []), (''screens'', []), (''services'', []), (''stores'', []),
      (''hooks'', []), (''types'', []), (''utils'', []), (''constants'', []),
      (''flows'', []), (''contexts'', []), (''navigation'', []), (''theme'', []),
      (''other'', [])]"

definition categorize_unused :: "string \<Rightarrow> string" where
  "categorize_unused filepath =
     (if str_in ''/components/'' filepath then ''components''
      else if str_in ''/screens/'' filepath then ''screens''
      else if str_in ''/services/'' filepath then ''services''
      else if str_in ''/stores/'' filepath then ''stores''
      else if str_in ''/hooks/'' filepath then ''hooks''
      else if str_in ''/types/'' filepath then ''types''
      else if str_in ''/utils/'' filepath then ''utils''
      else if str_in ''/constants/'' filepath then ''constants''
      else if str_in ''/flows/'' filepath then ''flows''
      else if str_in ''/contexts/'' filepath then ''contexts''
      else if str_in ''/navigation/'' filepath then ''navigation''
      else if str_in ''/theme/'' filepath then ''theme''
      else ''other'')"

definition ref_count_of :: "search_tool \<Rightarrow> string \<Rightarrow> nat" where
  "ref_count_of rg filepath = count_imports rg (splitext_root (basename filepath)) ''src''"

definition unused_step :: "search_tool \<Rightarrow> string \<Rightarrow> report \<Rightarrow> report" where
  "unused_step rg filepath d =
     (if ref_count_of rg filepath \<le> 1
      then dict_append d (categorize_unused filepath) filepath
      else d)"

definition find_unused_main :: "search_tool \<Rightarrow> fs_node option \<Rightarrow> report" where
  "find_unused_main rg root =
     fold (unused_step rg) (sort (get_all_source_files root)) unused_categories"

section \<open>The boolean variant (find-truly-unused.py)\<close>

definition KNOWN_USED :: "string list" where
  "KNOWN_USED =
     [''App.tsx'', ''CleanRootNavigator.tsx'', ''CleanTabNavigator.tsx'',
      ''EveningFlowNavigator.tsx'', ''MorningFlowNavigator.tsx'',
      ''MiddayFlowNavigator.tsx'']"

definition SKIP_PATTERNS :: "string list" where
  "SKIP_PATTERNS = [''.test.ts'', ''.test.tsx'', ''.d.ts'', ''index.ts'', ''index.tsx'']"

definition should_skip :: "string \<Rightarrow> bool" where
  "should_skip filepath =
     (if \<exists>x \<in> set SKIP_PATTERNS. str_in x filepath then True
      else basename filepath \<in> set KNOWN_USED)"

definition import_patterns :: "string \<Rightarrow> string list" where
  "import_patterns filename_base =
     [''import.*from.*'' @ filename_base,
      ''import.*from.*/'' @ filename_base,
      ''import.*from.*'' @ [CHR 0x27] @ filename_base @ [CHR 0x27],
      ''import.*from.*'' @ [CHR 0x22] @ filename_base @ [CHR 0x22]]"

definition import_argv :: "string \<Rightarrow> string list" where
  "import_argv pattern = [''rg'', pattern, ''.'', ''--type'', ''typescript'', ''--type'', ''tsx'']"

text \<open>The lines of an output that do not contain the candidate's path.\<close>

definition external_matches :: "string \<Rightarrow> string \<Rightarrow> string list" where
  "external_matches file_path out =
     filter (\<lambda>line. line \<noteq> [] \<and> \<not> str_in file_path line) (split_nl (strip out))"

text \<open>The body of the \<open>try\<close>: the loop over the patterns, an exception ending it.\<close>

fun search_patterns :: "search_tool \<Rightarrow> string \<Rightarrow> string list \<Rightarrow> proc_error + bool" where
  "search_patterns rg file_path [] = Inr False"
| "search_patterns rg file_path (pattern # rest) =
     (case rg (import_argv pattern) of
        Inl e \<Rightarrow> Inl e
      | Inr out \<Rightarrow>
          if external_matches file_path out \<noteq> [] then Inr True
          else search_patterns rg file_path rest)"

definition search_for_import :: "search_tool \<Rightarrow> string \<Rightarrow> string \<Rightarrow> bool" where
  "search_for_import rg filename_base file_path =
     (case search_patterns rg file_path (import_patterns filename_base) of
        Inl e \<Rightarrow> True
      | Inr found \<Rightarrow> found)"

definition truly_all_files :: "fs_node option \<Rightarrow> string list" where
  "truly_all_files root =
     concat (map (\<lambda>(r, dirs, filenames).
               filter (\<lambda>filepath. \<not> should_skip filepath)
                 (map (os_path_join r) (filter is_source_name filenames)))
             (walk_root SRC_DIR root))"

definition truly_categories :: report where
  "truly_categories =
     [(''documentation'', []), (''services'', []), (''components'', []),
      (''screens'', []), (''other'', [])]"

definition categorize_truly :: "string \<Rightarrow> string" where
  "categorize_truly filepath =
     (let filename = basename filepath
      in if str_in ''Guide'' filename \<or> str_in ''Validation'' filename then ''documentation''
         else if str_in ''/services/'' filepath then ''services''
         else if str_in ''/components/'' filepath \<or> str_in ''/flows/'' filepath then ''components''
         else if str_in ''/screens/'' filepath then ''screens''
         else ''other'')"

definition is_used :: "search_tool \<Rightarrow> string \<Rightarrow> bool" where
  "is_used rg filepath = search_for_import rg (splitext_root (basename filepath)) filepath"

definition truly_step :: "search_tool \<Rightarrow> string \<Rightarrow> report \<Rightarrow> report" where
  "truly_step rg filepath d =
     (if \<not> is_used rg filepath
      then dict_append d (categorize_truly filepath) filepath
      else d)"

definition find_truly_unused_main :: "search_tool \<Rightarrow> fs_node option \<Rightarrow> report" where
  "find_truly_unused_main rg root =
     fold (truly_step rg) (sort (truly_all_files root)) truly_categories"

section \<open>Example inputs\<close>

definition demo_tree :: "fs_node option" where
  "demo_tree =
     Some (Dir [(''b.ts'', File), (''a.ts'', File),
                (''services'', Dir [(''UserGuide.ts'', File), (''index.ts'', File)]),
                (''App.tsx'', File), (''CleanTabNavigator.tsx'', File), (''notes.md'', File)])"

text \<open>A search that finds \<open>a\<close> in three files, and nothing else anywhere.\<close>

definition demo_rg :: search_tool where
  "demo_rg argv =
     (if argv = [''rg'', ''-l'', ''a'', ''src'']
      then Inr (''src/a.ts'' @ [CHR 0x0A] @ ''src/b.ts'' @ [CHR 0x0A] @ ''src/App.tsx'' @ [CHR 0x0A])
      else Inr [])"

text \<open>A search that times out on every invocation.\<close>

definition failing_rg :: search_tool where
  "failing_rg argv = Inl TimeoutExpired"


text \<open>A search that finds nothing.\<close>

definition quiet_rg :: search_tool where
  "quiet_rg argv = Inr []"

text \<open>A search whose output repeats a line.\<close>

definition dup_rg :: search_tool where
  "dup_rg argv = Inr (''src/x.ts'' @ [CHR 0x0A] @ ''src/x.ts'' @ [CHR 0x0A])"

text \<open>
  A search that finds \<open>a\<close> only in \<open>src/a.ts\<close> itself: the file list of \<open>rg -l\<close>
  names that file, and every pattern search prints its one matching line.
\<close>

definition self_rg :: search_tool where
  "self_rg argv =
     (if argv = [''rg'', ''-l'', ''a'', ''src'']
      then Inr (''src/a.ts'' @ [CHR 0x0A])
      else Inr (''./src/a.ts:import a from a'' @ [CHR 0x0A]))"

section \<open>The cleanup script (cleanup_temp_files.py)\<close>

text \<open>\<open>str(n)\<close> of a natural number: its decimal digits.\<close>

fun str_nat :: "nat \<Rightarrow> string" where
  "str_nat n =
     (if n < 10 then [char_of (48 + n)]
      else str_nat (n div 10) @ [char_of (48 + n mod 10)])"

declare str_nat.simps [simp del]

text \<open>
  The operating system is a parameter of the script: whether a path exists, and what
  \<open>os.remove\<close> and \<open>shutil.rmtree\<close> do to the file system, each either raising or
  returning, and leaving a file system behind in both cases.
\<close>

datatype os_error = OSError string

fun error_text :: "os_error \<Rightarrow> string" where
  "error_text (OSError msg) = msg"

record 'fs os_ops =
  os_path_exists :: "'fs \<Rightarrow> string \<Rightarrow> bool"
  os_remove :: "'fs \<Rightarrow> string \<Rightarrow> (os_error + unit) \<times> 'fs"
  shutil_rmtree :: "'fs \<Rightarrow> string \<Rightarrow> (os_error + unit) \<times> 'fs"

record 'fs cleanup_state =
  c_fs :: 'fs
  c_count :: nat
  c_out :: "string list"

definition files_to_remove :: "string list" where
  "files_to_remove =
     [''/Users/max/Development/active/fullmind/PHASE_6A_HISTORY_AUDIT_REPORT.md'',
      ''/Users/max/Development/active/fullmind/PHASE_7B_COMPLIANCE_ENVIRONMENT_CONSOLIDATION_REPORT.md'',
      ''/Users/max/Development/active/fullmind/PHASE_7B_SECURITY_ENVIRONMENT_CONSOLIDATION_COMPLETE.md'',
      ''/Users/max/Development/active/fullmind/CRISIS_SAFETY_BASELINE_REPORT.md'',
      ''/Users/max/Development/active/fullmind/batch_remove_script.py'',
      ''/Users/max/Development/active/fullmind/cleanup-log.txt'',
      ''/Users/max/Development/active/fullmind/cleanup_examples.sh'',
      ''/Users/max/Development/active/fullmind/execute_cleanup.py'',
      ''/Users/max/Development/active/fullmind/final_cleanup.py'',
      ''/Users/max/Development/active/fullmind/app/PHASE_3B_SERVICE_CONSOLIDATION_PLAN.md'',
      ''/Users/max/Development/active/fullmind/app/PHASE_3C_GROUP_1_COMPLETION_REPORT.md'',
      ''/Users/max/Development/active/fullmind/app/PHASE_3C_GROUP_2_COMPLETION_REPORT.md'',
      ''/Users/max/Development/active/fullmind/app/PHASE_3D_PERFORMANCE_VALIDATION_COMPLETE.md'',
      ''/Users/max/Development/active/fullmind/app/PHASE_4A_TYPE_SYSTEM_ANALYSIS_REPORT.md'',
      ''/Users/max/Development/active/fullmind/app/PHASE_4B_TYPE_CONSOLIDATION_QUALITY_REVIEW.md'',
      ''/Users/max/Development/active/fullmind/app/PHASE_4B_CANONICAL_CONSOLIDATION_REPORT.md'',
      ''/Users/max/Development/active/fullmind/app/PHASE_4D_TYPE_SAFETY_VALIDATION_REPORT.md'',
      ''/Users/max/Development/active/fullmind/app/PHASE_5C_GROUP_2_COMPLETION_REPORT.md'',
      ''/Users/max/Development/active/fullmind/app/PHASE_5C_GROUP_3_CRISIS_MIGRATION_REPORT.md'',
      ''/Users/max/Development/active/fullmind/app/PHASE_5C_GROUP_1_USER_STORE_CONSOLIDATION_REPORT.md'',
      ''/Users/max/Development/active/fullmind/app/PHASE_5C_GROUP_2_ASSESSMENT_MIGRATION_COMPLETE.md'',
      ''/Users/max/Development/active/fullmind/app/PHASE_5C_GROUP_4_COMPLETION_REPORT.md'',
      ''/Users/max/Development/active/fullmind/app/PHASE_5E_DASHBOARD_INTEGRATION.md'',
      ''/Users/max/Development/active/fullmind/app/PHASE_5E_COMPLETION_REPORT.md'',
      ''/Users/max/Development/active/fullmind/app/PHASE_5F_FINAL_VALIDATION_REPORT.md'',
      ''/Users/max/Development/active/fullmind/app/PHASE_7A_TYPESCRIPT_BUILD_CONSOLIDATION_COMPLETE.md'',
      ''/Users/max/Development/active/fullmind/app/PHASE_7A_REACT_BUILD_CONSOLIDATION_COMPLETE.md'',
      ''/Users/max/Development/active/fullmind/app/PHASE_5E_EXECUTION_REPORT.json'',
      ''/Users/max/Development/active/fullmind/app/PHASE_5F_VALIDATION_REPORT.json'',
      ''/Users/max/Development/active/fullmind/app/PHASE_5F_STORE_INTEGRATION_REPORT.json'',
      ''/Users/max/Development/active/fullmind/app/PHASE_5F_PERFORMANCE_REPORT.json'',
      ''/Users/max/Development/active/fullmind/app/PHASE_5F_PERFORMANCE_VALIDATION_REPORT.json'',
      ''/Users/max/Development/active/fullmind/app/payment_consolidation_validation_report.json'',
      ''/Users/max/Development/active/fullmind/app/GROUP_4_MIGRATION_VALIDATION_REPORT.json'',
      ''/Users/max/Development/active/fullmind/app/IMMEDIATE_CLEANUP_ACTIONS.md'',
      ''/Users/max/Development/active/fullmind/app/NEW_ARCHITECTURE_COMPLIANCE_VALIDATION.md'',
      ''/Users/max/Development/active/fullmind/app/SERVICE_CONSOLIDATION_ARCHITECTURE.md'',
      ''/Users/max/Development/active/fullmind/app/STATE_AGENT_COORDINATION_BRIEF.md'',
      ''/Users/max/Development/active/fullmind/app/SYNC_TYPES_CANONICAL_MIGRATION_REPORT.md'',
      ''/Users/max/Development/active/fullmind/app/.phase-3c-group-1-success.json'',
      ''/Users/max/Development/active/fullmind/app/cleanup-performance-monitor.js'',
      ''/Users/max/Development/active/fullmind/app/clinical-performance-validation.js'',
      ''/Users/max/Development/active/fullmind/app/crisis-performance-monitor.js'',
      ''/Users/max/Development/active/fullmind/app/execute-crisis-clinical-migration.js'',
      ''/Users/max/Development/active/fullmind/app/migrate-sync-imports.js'',
      ''/Users/max/Development/active/fullmind/app/migrate-sync-types-canonical.js'',
      ''/Users/max/Development/active/fullmind/app/performance-baseline-measurement.js'',
      ''/Users/max/Development/active/fullmind/app/performance-checkpoint-system.js'',
      ''/Users/max/Development/active/fullmind/app/phase-3c-group-1-health-check.js'',
      ''/Users/max/Development/active/fullmind/app/phase-3d-integration-test.js'',
      ''/Users/max/Development/active/fullmind/app/phase-3d-performance-validation.js'',
      ''/Users/max/Development/active/fullmind/app/update-payment-imports.js'',
      ''/Users/max/Development/active/fullmind/app/validate-clinical-pattern.js'',
      ''/Users/max/Development/active/fullmind/app/validate-phase-2c-implementation.js'',
      ''/Users/max/Development/active/fullmind/app/validate-sync-consolidation.js'',
      ''/Users/max/Development/active/fullmind/app/validate_payment_consolidation.js'']"

definition dirs_to_remove :: "string list" where
  "dirs_to_remove =
     [''/Users/max/Development/active/fullmind/.temp_delete'',
      ''/Users/max/Development/active/fullmind/.to_delete'',
      ''/Users/max/Development/active/fullmind/app/.temp_payment_types_backup'',
      ''/Users/max/Development/active/fullmind/app/.to_delete'']"

text \<open>One round of the loop over \<open>files_to_remove\<close>, and one of the loop over \<open>dirs_to_remove\<close>.\<close>

definition remove_file_step :: "'fs os_ops \<Rightarrow> string \<Rightarrow> 'fs cleanup_state \<Rightarrow> 'fs cleanup_state" where
  "remove_file_step ops file_path st =
     (if os_path_exists ops (c_fs st) file_path then
        (case os_remove ops (c_fs st) file_path of
           (Inr u, fs') \<Rightarrow>
             st\<lparr>c_fs := fs', c_count := c_count st + 1,
                c_out := c_out st @ [''Removed file: '' @ file_path]\<rparr>
         | (Inl e, fs') \<Rightarrow>
             st\<lparr>c_fs := fs',
                c_out := c_out st @ [''Error removing file '' @ file_path @ '': '' @ error_text e]\<rparr>)
      else st\<lparr>c_out := c_out st @ [''File not found: '' @ file_path]\<rparr>)"

definition remove_dir_step :: "'fs os_ops \<Rightarrow> string \<Rightarrow> 'fs cleanup_state \<Rightarrow> 'fs cleanup_state" where
  "remove_dir_step ops dir_path st =
     (if os_path_exists ops (c_fs st) dir_path then
        (case shutil_rmtree ops (c_fs st) dir_path of
           (Inr u, fs') \<Rightarrow>
             st\<lparr>c_fs := fs', c_count := c_count st + 1,
                c_out := c_out st @ [''Removed directory: '' @ dir_path]\<rparr>
         | (Inl e, fs') \<Rightarrow>
             st\<lparr>c_fs := fs',
                c_out := c_out st @ [''Error removing directory '' @ dir_path @ '': '' @ error_text e]\<rparr>)
      else st\<lparr>c_out := c_out st @ [''Directory not found: '' @ dir_path]\<rparr>)"

definition cleanup_loops :: "'fs os_ops \<Rightarrow> string list \<Rightarrow> string list \<Rightarrow> 'fs cleanup_state \<Rightarrow> 'fs cleanup_state" where
  "cleanup_loops ops files dirs st = fold (remove_dir_step ops) dirs (fold (remove_file_step ops) files st)"

definition cleanup_summary :: "nat \<Rightarrow> string" where
  "cleanup_summary n = [CHR 0x0A] @ ''Cleanup complete. Removed '' @ str_nat n @ '' items total.''"

definition cleanup_temp_files :: "'fs os_ops \<Rightarrow> 'fs \<Rightarrow> 'fs cleanup_state" where
  "cleanup_temp_files ops fs0 =
     (let st = cleanup_loops ops files_to_remove dirs_to_remove \<lparr>c_fs = fs0, c_count = 0, c_out = []\<rparr>
      in st\<lparr>c_out := c_out st @ [cleanup_summary (c_count st)]\<rparr>)"


text \<open>An example system: a set of paths, one of which cannot be removed.\<close>

definition demo_ops :: "(string list) os_ops" where
  "demo_ops =
     \<lparr>os_path_exists = (\<lambda>fs p. p \<in> set fs),
      os_remove = (\<lambda>fs p. if p = ''/locked'' then (Inl (OSError ''Permission denied''), fs)
                           else (Inr (), removeAll p fs)),
      shutil_rmtree = (\<lambda>fs p. (Inr (), removeAll p fs))\<rparr>"


text \<open>The notices printed by the two success branches start with \<open>Removed\<close>.\<close>

definition removed_notice :: "string \<Rightarrow> bool" where
  "removed_notice line = startswith line ''Removed ''"

definition demo_state :: "(string list) cleanup_state" where
  "demo_state = \<lparr>c_fs = [''/a'', ''/locked'', ''/b'', ''/d'', ''/keep''], c_count = 0, c_out = []\<rparr>"

section \<open>The file mover (final_batch_move.py)\<close>

text \<open>The number a string of decimal digits stands for.\<close>

definition digits_val :: "string \<Rightarrow> nat" where
  "digits_val s = foldl (\<lambda>acc c. acc * 10 + (of_char c - 48)) 0 s"

text \<open>
  The files of the system: an association list from path to content. The paths handled
  are normalised, so \<open>Path / name\<close> is \<open>os_path_join\<close> and \<open>Path.name\<close> is
  \<open>basename\<close>; \<open>Path.suffix\<close> and \<open>Path.stem\<close> split a name at its last dot when
  that dot is neither its first nor its last character.
\<close>

type_synonym file_store = "(string \<times> string) list"

definition path_exists :: "file_store \<Rightarrow> string \<Rightarrow> bool" where
  "path_exists fs p = (p \<in> set (map fst fs))"

definition rfind_dot :: "string \<Rightarrow> nat option" where
  "rfind_dot name =
     (if CHR ''.'' \<in> set name
      then Some (length name - 1 - length (takeWhile (\<lambda>c. c \<noteq> CHR ''.'') (rev name)))
      else None)"

definition path_suffix :: "string \<Rightarrow> string" where
  "path_suffix name =
     (case rfind_dot name of
        None \<Rightarrow> []
      | Some i \<Rightarrow> if 0 < i \<and> i < length name - 1 then drop i name else [])"

definition path_stem :: "string \<Rightarrow> string" where
  "path_stem name =
     (case rfind_dot name of
        None \<Rightarrow> name
      | Some i \<Rightarrow> if 0 < i \<and> i < length name - 1 then take i name else name)"

definition base_path :: string where
  "base_path = ''/Users/max/Development/active/fullmind''"

definition consolidation_path :: string where
  "consolidation_path = os_path_join base_path ''temp_consolidation''"

definition files_to_move :: "string list" where
  "files_to_move =
     [''app/PHASE_3B_SERVICE_CONSOLIDATION_PLAN.md'',
      ''app/PHASE_3C_GROUP_1_COMPLETION_REPORT.md'',
      ''app/PHASE_3C_GROUP_2_COMPLETION_REPORT.md'',
      ''app/PHASE_3D_PERFORMANCE_VALIDATION_COMPLETE.md'',
      ''app/PHASE_4A_TYPE_SYSTEM_ANALYSIS_REPORT.md'',
      ''app/PHASE_4B_CANONICAL_CONSOLIDATION_REPORT.md'',
      ''app/PHASE_4B_TYPE_CONSOLIDATION_QUALITY_REVIEW.md'',
      ''app/PHASE_4D_TYPE_SAFETY_VALIDATION_REPORT.md'',
      ''app/PHASE_5C_GROUP_1_USER_STORE_CONSOLIDATION_REPORT.md'',
      ''app/PHASE_5C_GROUP_2_ASSESSMENT_MIGRATION_COMPLETE.md'',
      ''app/PHASE_5C_GROUP_2_COMPLETION_REPORT.md'',
      ''app/PHASE_5C_GROUP_3_CRISIS_MIGRATION_REPORT.md'',
      ''app/PHASE_5C_GROUP_4_COMPLETION_REPORT.md'',
      ''app/PHASE_5E_COMPLETION_REPORT.md'',
      ''app/PHASE_5E_DASHBOARD_INTEGRATION.md'',
      ''app/PHASE_5F_FINAL_VALIDATION_REPORT.md'',
      ''app/PHASE_7A_REACT_BUILD_CONSOLIDATION_COMPLETE.md'',
      ''app/PHASE_7A_TYPESCRIPT_BUILD_CONSOLIDATION_COMPLETE.md'',
      ''app/PHASE_5E_EXECUTION_REPORT.json'',
      ''app/PHASE_5F_STORE_INTEGRATION_REPORT.json'',
      ''app/PHASE_5F_VALIDATION_REPORT.json'',
      ''app/.phase-3c-group-1-success.json'',
      ''app/payment_consolidation_validation_report.json'',
      ''app/GROUP_4_MIGRATION_VALIDATION_REPORT.json'',
      ''app/GROUP_4_INTEGRATION_TEST_REPORT.json'',
      ''app/clinical-pattern-validation-report.json'',
      ''app/clinical-performance-validation.json'',
      ''app/crisis-performance-report-phase-1-group-c-activation.json'',
      ''app/performance-baseline-report.json'',
      ''app/phase-3c-group-1-validation-report.json'',
      ''app/phase-3d-integration-report.json'',
      ''app/phase-3d-performance-validation-report.json'',
      ''app/react-native-build-consolidation-report.json'',
      ''app/typescript-build-report.json'',
      ''app/PHASE_5F_CLINICAL_ACCURACY_VALIDATION.js'',
      ''app/PHASE_5F_STORE_INTEGRATION_TEST.js'',
      ''app/cleanup-performance-monitor.js'',
      ''app/clinical-performance-validation.js'',
      ''app/crisis-performance-monitor.js'',
      ''app/execute-crisis-clinical-migration.js'',
      ''app/migrate-sync-imports.js'',
      ''app/migrate-sync-types-canonical.js'',
      ''app/performance-baseline-measurement.js'',
      ''app/performance-checkpoint-system.js'',
      ''app/phase-3c-group-1-health-check.js'',
      ''app/phase-3d-integration-test.js'',
      ''app/phase-3d-performance-validation.js'',
      ''app/update-payment-imports.js'',
      ''app/validate-clinical-pattern.js'',
      ''app/validate-phase-2c-implementation.js'',
      ''app/validate-sync-consolidation.js'',
      ''app/validate_payment_consolidation.js'',
      ''app/performance-validation-focused.js'',
      ''app/performance-validation-phase5f.js'',
      ''app/test-group-4-integration.js'',
      ''app/validate-architecture-setup.js'',
      ''app/validate-group-4-migration.js'',
      ''app/verify-architecture.js'',
      ''app/verify-react.js'',
      ''app/execute-phase-5c-group-1-user-consolidation.js'',
      ''app/execute-phase-5e-parallel-run.js'',
      ''app/crisis-migration-final-validation.js'',
      ''app/crisis-rollback-test.js'',
      ''app/debug_crisis_detection.js'',
      ''app/cleanup_payment_services_phase3c.sh'',
      ''app/cleanup_payment_services_phase3c.log'',
      ''app/build-ios-simulator.sh'',
      ''app/SERVICE_CONSOLIDATION_ARCHITECTURE.md'',
      ''app/STATE_AGENT_COORDINATION_BRIEF.md'',
      ''app/SYNC_TYPES_CANONICAL_MIGRATION_REPORT.md'',
      ''app/comprehensive-performance-baseline-report.md'',
      ''cleanup_temp_files.py'',
      ''batch_cleanup.sh'']"

text \<open>
  The loop that resolves a name conflict: while the destination exists, try the stem
  with the next counter appended.
\<close>

definition numbered_name :: "string \<Rightarrow> string \<Rightarrow> nat \<Rightarrow> string" where
  "numbered_name stem suffix counter = stem @ ''_'' @ str_nat counter @ suffix"

function dest_loop :: "file_store \<Rightarrow> string \<Rightarrow> string \<Rightarrow> string \<Rightarrow> string \<Rightarrow> nat \<Rightarrow> string" where
  "dest_loop fs dir stem suffix dest_path counter =
     (if path_exists fs dest_path
      then dest_loop fs dir stem suffix
             (os_path_join dir (numbered_name stem suffix counter)) (counter + 1)
      else dest_path)"
  by pat_completeness auto

text \<open>
  \<open>shutil.move(src, dst)\<close> for a destination that is not a directory: a rename, which
  replaces whatever the destination held. The parameter \<open>fault\<close> says when the operating
  system raises instead; a failed move leaves the files as they were.
\<close>

definition shutil_move ::
  "(string \<Rightarrow> string \<Rightarrow> os_error option) \<Rightarrow> file_store \<Rightarrow> string \<Rightarrow> string \<Rightarrow> os_error + file_store" where
  "shutil_move fault fs src dst =
     (case fault src dst of
        Some e \<Rightarrow> Inl e
      | None \<Rightarrow>
          (case map_of fs src of
             None \<Rightarrow> Inl (OSError ''No such file or directory'')
           | Some content \<Rightarrow>
               Inr ((dst, content) # filter (\<lambda>entry. fst entry \<noteq> src \<and> fst entry \<noteq> dst) fs)))"

record mover_state =
  m_fs :: file_store
  moved_count :: nat
  m_out :: "string list"

text \<open>The destination the script settles on for a source file, then one round of its loop.\<close>

definition chosen_dest :: "file_store \<Rightarrow> string \<Rightarrow> string" where
  "chosen_dest fs file_path =
     dest_loop fs consolidation_path (path_stem (basename file_path)) (path_suffix (basename file_path))
       (os_path_join consolidation_path (basename file_path)) 1"

definition move_step ::
  "(string \<Rightarrow> string \<Rightarrow> os_error option) \<Rightarrow> string \<Rightarrow> mover_state \<Rightarrow> mover_state" where
  "move_step fault file_rel_path st =
     (let file_path = os_path_join base_path file_rel_path
      in if path_exists (m_fs st) file_path then
           (let dest_path = chosen_dest (m_fs st) file_path
            in case shutil_move fault (m_fs st) file_path dest_path of
                 Inr fs' \<Rightarrow>
                   st\<lparr>m_fs := fs', moved_count := moved_count st + 1,
                      m_out := m_out st @
                        [''Moved: '' @ file_rel_path @ '' -> '' @ basename dest_path]\<rparr>
               | Inl e \<Rightarrow>
                   st\<lparr>m_out := m_out st @
                        [''Error moving '' @ file_path @ '': '' @ error_text e]\<rparr>)
         else st)"

definition move_all ::
  "(string \<Rightarrow> string \<Rightarrow> os_error option) \<Rightarrow> string list \<Rightarrow> mover_state \<Rightarrow> mover_state" where
  "move_all fault files st = fold (move_step fault) files st"

definition final_batch_move ::
  "(string \<Rightarrow> string \<Rightarrow> os_error option) \<Rightarrow> file_store \<Rightarrow> mover_state" where
  "final_batch_move fault fs0 =
     (let st = move_all fault files_to_move
                 \<lparr>m_fs = fs0, moved_count = 0,
                  m_out = [''Moving cleanup files to consolidation directory...'']\<rparr>
      in st\<lparr>m_out := m_out st @
           [[CHR 0x0A] @ ''Moved '' @ str_nat (moved_count st) @ '' files to consolidation directory.'',
            ''Next step: Remove the entire /temp_consolidation directory.'']\<rparr>)"

definition no_fault :: "string \<Rightarrow> string \<Rightarrow> os_error option" where
  "no_fault src dst = None"

definition demo_store :: file_store where
  "demo_store =
     [(''/Users/max/Development/active/fullmind/cleanup_temp_files.py'', ''new script''),
      (''/Users/max/Development/active/fullmind/app/verify-react.js'', ''check''),
      (''/Users/max/Development/active/fullmind/temp_consolidation/cleanup_temp_files.py'', ''old script''),
      (''/Users/max/Development/active/fullmind/temp_consolidation/cleanup_temp_files_1.py'', ''older script'')]"

definition demo_src :: string where
  "demo_src = ''/Users/max/Development/active/fullmind/cleanup_temp_files.py''"

definition demo_old :: string where
  "demo_old = ''/Users/max/Development/active/fullmind/temp_consolidation/cleanup_temp_files.py''"

definition demo_start :: mover_state where
  "demo_start = \<lparr>m_fs = demo_store, moved_count = 0, m_out = []\<rparr>"

section \<open>Properties of the helpers\<close>

lemma str_in_iff: "str_in x s \<longleftrightarrow> (\<exists>p q. s = p @ x @ q)"
proof (induction s)
  case Nil
  then show ?case by auto
next
  case (Cons c cs)
  have "take (length x) (c # cs) = x \<longleftrightarrow> (\<exists>q. c # cs = x @ q)"
    by (metis append_eq_conv_conj append_take_drop_id)
  moreover have "(\<exists>p q. c # cs = p @ x @ q) \<longleftrightarrow> (\<exists>q. c # cs = x @ q) \<or> (\<exists>p q. cs = p @ x @ q)"
  proof
    assume "\<exists>p q. c # cs = p @ x @ q"
    then obtain p q where pq: "c # cs = p @ x @ q" by blast
    show "(\<exists>q. c # cs = x @ q) \<or> (\<exists>p q. cs = p @ x @ q)"
    proof (cases p)
      case Nil
      with pq show ?thesis by auto
    next
      case (Cons a p')
      with pq have "cs = p' @ x @ q" by simp
      then show ?thesis by blast
    qed
  next
    assume "(\<exists>q. c # cs = x @ q) \<or> (\<exists>p q. cs = p @ x @ q)"
    then show "\<exists>p q. c # cs = p @ x @ q"
    proof
      assume "\<exists>q. c # cs = x @ q"
      then show ?thesis by (metis append_Nil)
    next
      assume "\<exists>p q. cs = p @ x @ q"
      then obtain p q where "cs = p @ x @ q" by blast
      then have "c # cs = (c # p) @ x @ q" by simp
      then show ?thesis by blast
    qed
  qed
  ultimately show ?case using Cons.IH by simp
qed

lemma fold_bucket:
  "fold (\<lambda>fp d. if P fp then dict_append d (cat fp) fp else d) xs d =
     map (\<lambda>(k, vs). (k, vs @ filter (\<lambda>fp. P fp \<and> cat fp = k) xs)) d"
proof (induction xs arbitrary: d)
  case Nil
  show ?case by (simp add: case_prod_unfold)
next
  case (Cons x xs)
  show ?case
    by (simp add: Cons.IH dict_append_def case_prod_unfold)
qed

lemma find_unused_main_eq:
  "find_unused_main rg root =
     map (\<lambda>(k, vs). (k, filter (\<lambda>fp. ref_count_of rg fp \<le> 1 \<and> categorize_unused fp = k)
                          (sort (get_all_source_files root)))) unused_categories"
proof -
  have "unused_step rg = (\<lambda>fp d. if ref_count_of rg fp \<le> 1 then dict_append d (categorize_unused fp) fp else d)"
    by (intro ext) (simp add: unused_step_def)
  then show ?thesis
    unfolding find_unused_main_def
    by (simp add: fold_bucket unused_categories_def)
qed

lemma find_truly_unused_main_eq:
  "find_truly_unused_main rg root =
     map (\<lambda>(k, vs). (k, filter (\<lambda>fp. \<not> is_used rg fp \<and> categorize_truly fp = k)
                          (sort (truly_all_files root)))) truly_categories"
proof -
  have "truly_step rg = (\<lambda>fp d. if \<not> is_used rg fp then dict_append d (categorize_truly fp) fp else d)"
    by (intro ext) (simp add: truly_step_def)
  then show ?thesis
    unfolding find_truly_unused_main_def
    by (simp add: fold_bucket truly_categories_def)
qed

lemma categorize_unused_key: "categorize_unused fp \<in> fst ` set unused_categories"
  by (simp add: categorize_unused_def unused_categories_def)

lemma categorize_truly_key: "categorize_truly fp \<in> fst ` set truly_categories"
  by (simp add: categorize_truly_def truly_categories_def Let_def)

lemma distinct_unused_keys: "distinct (map fst unused_categories)"
  by (simp add: unused_categories_def)

lemma distinct_truly_keys: "distinct (map fst truly_categories)"
  by (simp add: truly_categories_def)

lemma dict_get_map:
  "distinct (map fst d) \<Longrightarrow>
   dict_get (map (\<lambda>(k, vs). (k, f k)) d) c = (if c \<in> fst ` set d then f c else [])"
proof (induction d)
  case Nil
  show ?case by (simp add: dict_get_def)
next
  case (Cons a d)
  then show ?case
    by (cases a) (auto simp: dict_get_def split: option.splits)
qed

lemma reported_map:
  "set (reported (map (\<lambda>(k, vs). (k, filter (\<lambda>fp. P fp \<and> cat fp = k) xs)) d)) =
     {fp \<in> set xs. P fp \<and> cat fp \<in> fst ` set d}"
  by (induction d) (auto simp: reported_def)

lemma set_reported_unused:
  "set (reported (find_unused_main rg root)) =
     {fp \<in> set (get_all_source_files root). ref_count_of rg fp \<le> 1}"
  by (simp add: find_unused_main_eq reported_map categorize_unused_key)

lemma set_reported_truly:
  "set (reported (find_truly_unused_main rg root)) =
     {fp \<in> set (truly_all_files root). \<not> is_used rg fp}"
  by (simp add: find_truly_unused_main_eq reported_map categorize_truly_key)

section \<open>Properties of the detector\<close>

text \<open>
  Claim C1. In the threshold variant a candidate file is reported as potentially unused
  exactly when its reference count is at most 1; a candidate whose reference count
  exceeds 1 is never reported.
\<close>

theorem threshold_policy:
  "fp \<in> set (get_all_source_files root) \<Longrightarrow>
     (fp \<in> set (reported (find_unused_main rg root)) \<longleftrightarrow> ref_count_of rg fp \<le> 1) \<and>
     (1 < ref_count_of rg fp \<longrightarrow> fp \<notin> set (reported (find_unused_main rg root)))"
  by (auto simp: set_reported_unused)

theorem threshold_policy_witness:
  "''src/a.ts'' \<in> set (get_all_source_files demo_tree) \<and>
   ref_count_of demo_rg ''src/a.ts'' = 3 \<and>
   ''src/a.ts'' \<notin> set (reported (find_unused_main demo_rg demo_tree)) \<and>
   ''src/b.ts'' \<in> set (get_all_source_files demo_tree) \<and>
   ref_count_of demo_rg ''src/b.ts'' = 0 \<and>
   ''src/b.ts'' \<in> set (reported (find_unused_main demo_rg demo_tree))"
proof -
  have a: "''src/a.ts'' \<in> set (get_all_source_files demo_tree)" by code_simp
  have b: "''src/b.ts'' \<in> set (get_all_source_files demo_tree)" by code_simp
  have ca: "ref_count_of demo_rg ''src/a.ts'' = 3" by code_simp
  have cb: "ref_count_of demo_rg ''src/b.ts'' = 0" by code_simp
  show ?thesis
    using threshold_policy [OF a, of demo_rg] threshold_policy [OF b, of demo_rg] a b ca cb
    by simp
qed

lemma get_all_source_files_checked:
  "fp \<in> set (get_all_source_files root) \<Longrightarrow> should_check fp"
  by (auto simp: get_all_source_files_def)

lemma truly_all_files_not_skipped:
  "fp \<in> set (truly_all_files root) \<Longrightarrow> \<not> should_skip fp"
  by (auto simp: truly_all_files_def)

text \<open>
  Claim C3. No path produced by the walker of either variant contains a configured
  exclusion pattern as a substring, and in the boolean variant the base name of a
  produced path is not in \<open>KNOWN_USED\<close>.
\<close>

theorem walker_excludes:
  "(fp \<in> set (get_all_source_files root) \<longrightarrow>
      (\<forall>pattern \<in> set EXCLUDE_PATTERNS. \<not> str_in pattern fp)) \<and>
   (fp \<in> set (truly_all_files root) \<longrightarrow>
      (\<forall>pattern \<in> set SKIP_PATTERNS. \<not> str_in pattern fp) \<and>
      basename fp \<notin> set KNOWN_USED)"
proof (intro conjI impI)
  assume "fp \<in> set (get_all_source_files root)"
  then have "should_check fp" by (rule get_all_source_files_checked)
  then show "\<forall>pattern \<in> set EXCLUDE_PATTERNS. \<not> str_in pattern fp"
    by (simp add: should_check_def)
next
  assume "fp \<in> set (truly_all_files root)"
  then have ns: "\<not> should_skip fp" by (rule truly_all_files_not_skipped)
  then show "\<forall>pattern \<in> set SKIP_PATTERNS. \<not> str_in pattern fp"
    by (auto simp: should_skip_def split: if_splits)
  from ns show "basename fp \<notin> set KNOWN_USED"
    by (auto simp: should_skip_def split: if_splits)
qed

theorem walker_excludes_witness:
  "''src/b.ts'' \<in> set (get_all_source_files demo_tree) \<and>
   \<not> (\<exists>pattern \<in> set EXCLUDE_PATTERNS. str_in pattern ''src/b.ts'') \<and>
   ''src/b.ts'' \<in> set (truly_all_files demo_tree) \<and>
   \<not> (\<exists>pattern \<in> set SKIP_PATTERNS. str_in pattern ''src/b.ts'') \<and>
   basename ''src/b.ts'' \<notin> set KNOWN_USED \<and>
   get_all_source_files demo_tree =
     [''src/b.ts'', ''src/a.ts'', ''src/CleanTabNavigator.tsx'', ''src/services/UserGuide.ts''] \<and>
   truly_all_files demo_tree = [''src/b.ts'', ''src/a.ts'', ''src/services/UserGuide.ts'']"
proof -
  have a: "get_all_source_files demo_tree =
     [''src/b.ts'', ''src/a.ts'', ''src/CleanTabNavigator.tsx'', ''src/services/UserGuide.ts'']"
    by code_simp
  have b: "truly_all_files demo_tree = [''src/b.ts'', ''src/a.ts'', ''src/services/UserGuide.ts'']"
    by code_simp
  have m1: "''src/b.ts'' \<in> set (get_all_source_files demo_tree)" by (simp add: a)
  have m2: "''src/b.ts'' \<in> set (truly_all_files demo_tree)" by (simp add: b)
  show ?thesis
    using walker_excludes [of "''src/b.ts''" demo_tree] m1 m2 a b by blast
qed

text \<open>
  Claim C8. When the root source directory does not exist the walker yields no
  candidate, and the run of either variant ends with the empty report, total 0.
\<close>

theorem missing_root_empty:
  "get_all_source_files None = [] \<and>
   truly_all_files None = [] \<and>
   find_unused_main rg None = unused_categories \<and>
   find_truly_unused_main rg None = truly_categories \<and>
   reported (find_unused_main rg None) = [] \<and>
   reported (find_truly_unused_main rg None) = [] \<and>
   report_total (find_unused_main rg None) = 0 \<and>
   report_total (find_truly_unused_main rg None) = 0"
proof -
  have a: "get_all_source_files None = []"
    by (simp add: get_all_source_files_def walk_root_def)
  have b: "truly_all_files None = []"
    by (simp add: truly_all_files_def walk_root_def)
  have c: "find_unused_main rg None = unused_categories"
    by (simp add: find_unused_main_def a)
  have d: "find_truly_unused_main rg None = truly_categories"
    by (simp add: find_truly_unused_main_def b)
  have e: "reported unused_categories = []" "report_total unused_categories = 0"
    by (simp_all add: reported_def report_total_def unused_categories_def)
  have f: "reported truly_categories = []" "report_total truly_categories = 0"
    by (simp_all add: reported_def report_total_def truly_categories_def)
  show ?thesis by (simp add: a b c d e f)
qed

theorem missing_root_empty_witness:
  "find_unused_main failing_rg None = unused_categories \<and>
   find_truly_unused_main demo_rg None = truly_categories \<and>
   report_total (find_unused_main failing_rg None) = 0"
  using missing_root_empty [of failing_rg] missing_root_empty [of demo_rg] by blast

lemma split_nl_not_Nil: "split_nl s \<noteq> []"
  by (induction s) (auto split: list.splits)

lemma split_nl_line: "CHR 0x0A \<notin> set l \<Longrightarrow> split_nl l = [l]"
  by (induction l) auto

lemma split_nl_append:
  "CHR 0x0A \<notin> set l \<Longrightarrow> split_nl (l @ CHR 0x0A # s) = l # split_nl s"
  by (induction l) auto

lemma split_nl_join:
  "ls \<noteq> [] \<Longrightarrow> \<forall>l \<in> set ls. CHR 0x0A \<notin> set l \<Longrightarrow> split_nl (join_nl ls) = ls"
proof (induction ls rule: join_nl.induct)
  case 1
  then show ?case by simp
next
  case (2 l)
  then show ?case by (simp add: split_nl_line)
next
  case (3 l l' ls)
  then show ?case by (simp add: split_nl_append)
qed

lemma search_patterns_error:
  "\<exists>p \<in> set ps. isl (rg (import_argv p)) \<Longrightarrow> search_patterns rg fp ps \<noteq> Inr False"
proof (induction ps)
  case Nil
  then show ?case by simp
next
  case (Cons p ps)
  show ?case
  proof (cases "rg (import_argv p)")
    case (Inl e)
    then show ?thesis by simp
  next
    case (Inr out)
    with Cons show ?thesis by auto
  qed
qed

lemma search_patterns_ok:
  "\<forall>p \<in> set ps. \<not> isl (rg (import_argv p)) \<Longrightarrow>
   search_patterns rg fp ps =
     Inr (\<exists>p \<in> set ps. \<exists>out. rg (import_argv p) = Inr out \<and> external_matches fp out \<noteq> [])"
proof (induction ps)
  case Nil
  then show ?case by simp
next
  case (Cons p ps)
  show ?case
  proof (cases "rg (import_argv p)")
    case (Inl e)
    with Cons.prems show ?thesis by simp
  next
    case (Inr out)
    with Cons show ?thesis by auto
  qed
qed

text \<open>
  Claim C2. When an invocation of the search raises, \<open>count_imports\<close> returns 0 and the
  candidate is reported, whereas \<open>search_for_import\<close> returns True and the candidate is
  not reported: the defaults of the two variants are opposite.
\<close>

theorem error_defaults:
  "(rg [''rg'', ''-l'', name, dir] = Inl e \<longrightarrow> count_imports rg name dir = 0) \<and>
   (p \<in> set (import_patterns base) \<and> rg (import_argv p) = Inl e' \<longrightarrow>
      search_for_import rg base path = True) \<and>
   (fp \<in> set (get_all_source_files root) \<and>
    rg [''rg'', ''-l'', splitext_root (basename fp), ''src''] = Inl e \<longrightarrow>
      fp \<in> set (reported (find_unused_main rg root))) \<and>
   (fp \<in> set (truly_all_files root) \<and> q \<in> set (import_patterns (splitext_root (basename fp))) \<and>
    rg (import_argv q) = Inl e' \<longrightarrow>
      fp \<notin> set (reported (find_truly_unused_main rg root)))"
proof (intro conjI impI)
  assume "rg [''rg'', ''-l'', name, dir] = Inl e"
  then show "count_imports rg name dir = 0" by (simp add: count_imports_def)
next
  assume "p \<in> set (import_patterns base) \<and> rg (import_argv p) = Inl e'"
  then have "\<exists>p \<in> set (import_patterns base). isl (rg (import_argv p))" by force
  then have "search_patterns rg path (import_patterns base) \<noteq> Inr False"
    by (rule search_patterns_error)
  then show "search_for_import rg base path = True"
    by (auto simp: search_for_import_def split: sum.splits)
next
  assume "fp \<in> set (get_all_source_files root) \<and>
    rg [''rg'', ''-l'', splitext_root (basename fp), ''src''] = Inl e"
  then show "fp \<in> set (reported (find_unused_main rg root))"
    by (simp add: set_reported_unused ref_count_of_def count_imports_def)
next
  assume a: "fp \<in> set (truly_all_files root) \<and>
    q \<in> set (import_patterns (splitext_root (basename fp))) \<and> rg (import_argv q) = Inl e'"
  then have "\<exists>p \<in> set (import_patterns (splitext_root (basename fp))). isl (rg (import_argv p))"
    by force
  then have "search_patterns rg fp (import_patterns (splitext_root (basename fp))) \<noteq> Inr False"
    by (rule search_patterns_error)
  then have "is_used rg fp"
    by (auto simp: is_used_def search_for_import_def split: sum.splits)
  then show "fp \<notin> set (reported (find_truly_unused_main rg root))"
    by (simp add: set_reported_truly)
qed

theorem error_defaults_witness:
  "failing_rg [''rg'', ''-l'', ''b'', ''src''] = Inl TimeoutExpired \<and>
   count_imports failing_rg ''b'' ''src'' = 0 \<and>
   ''import.*from.*b'' \<in> set (import_patterns ''b'') \<and>
   failing_rg (import_argv ''import.*from.*b'') = Inl TimeoutExpired \<and>
   search_for_import failing_rg ''b'' ''src/b.ts'' = True \<and>
   ''src/b.ts'' \<in> set (get_all_source_files demo_tree) \<and>
   ''src/b.ts'' \<in> set (reported (find_unused_main failing_rg demo_tree)) \<and>
   ''src/b.ts'' \<in> set (truly_all_files demo_tree) \<and>
   ''src/b.ts'' \<notin> set (reported (find_truly_unused_main failing_rg demo_tree))"
proof -
  have f: "\<And>argv. failing_rg argv = Inl TimeoutExpired" by (simp add: failing_rg_def)
  have b: "splitext_root (basename ''src/b.ts'') = ''b''" by code_simp
  have m: "''import.*from.*b'' \<in> set (import_patterns ''b'')" by (simp add: import_patterns_def)
  have c1: "''src/b.ts'' \<in> set (get_all_source_files demo_tree)" by code_simp
  have c2: "''src/b.ts'' \<in> set (truly_all_files demo_tree)" by code_simp
  show ?thesis
    using error_defaults [of failing_rg "''b''" "''src''" TimeoutExpired "''import.*from.*b''" "''b''"
        TimeoutExpired "''src/b.ts''" "''src/b.ts''" demo_tree "''import.*from.*b''"]
      f b m c1 c2
    by simp
qed



text \<open>
  Claim C4, as stated, at an output that repeats a line: the counter returns 2 although
  the output has one distinct line.
\<close>

theorem count_distinct_lines_counterexample:
  "dup_rg [''rg'', ''-l'', ''x'', ''src''] = Inr (''src/x.ts'' @ [CHR 0x0A] @ ''src/x.ts'' @ [CHR 0x0A]) \<and>
   output_lines (''src/x.ts'' @ [CHR 0x0A] @ ''src/x.ts'' @ [CHR 0x0A]) = [''src/x.ts'', ''src/x.ts''] \<and>
   card (set (output_lines (''src/x.ts'' @ [CHR 0x0A] @ ''src/x.ts'' @ [CHR 0x0A]))) = 1 \<and>
   count_imports dup_rg ''x'' ''src'' = 2"
proof -
  have a: "output_lines (''src/x.ts'' @ [CHR 0x0A] @ ''src/x.ts'' @ [CHR 0x0A]) = [''src/x.ts'', ''src/x.ts'']"
    by code_simp
  have b: "count_imports dup_rg ''x'' ''src'' = 2"
    by (simp add: count_imports_def dup_rg_def a del: append.simps)
  show ?thesis by (simp add: a b dup_rg_def del: append.simps)
qed

text \<open>
  Claim C4, amended. When the search returns, \<open>count_imports\<close> is the number of
  non-empty lines of the stripped output, every occurrence counted (which is the number
  of distinct lines when no line repeats); when no invocation raises,
  \<open>search_for_import\<close> tells whether some pattern produced a line not containing the
  candidate's path.
\<close>

theorem reference_counter_result:
  "(rg [''rg'', ''-l'', name, dir] = Inr out \<and> strip out = join_nl ls \<and> ls \<noteq> [] \<and>
    (\<forall>l \<in> set ls. CHR 0x0A \<notin> set l) \<longrightarrow>
      count_imports rg name dir = length (filter (\<lambda>l. l \<noteq> []) ls) \<and>
      (distinct (filter (\<lambda>l. l \<noteq> []) ls) \<longrightarrow>
         count_imports rg name dir = card (set (filter (\<lambda>l. l \<noteq> []) ls)))) \<and>
   ((\<forall>p \<in> set (import_patterns base). \<not> isl (rg (import_argv p))) \<longrightarrow>
      search_for_import rg base path =
        (\<exists>p \<in> set (import_patterns base). \<exists>out'.
            rg (import_argv p) = Inr out' \<and> external_matches path out' \<noteq> []))"
proof (intro conjI impI)
  assume a: "rg [''rg'', ''-l'', name, dir] = Inr out \<and> strip out = join_nl ls \<and> ls \<noteq> [] \<and>
    (\<forall>l \<in> set ls. CHR 0x0A \<notin> set l)"
  then have "split_nl (strip out) = ls" by (simp add: split_nl_join)
  with a show n: "count_imports rg name dir = length (filter (\<lambda>l. l \<noteq> []) ls)"
    by (simp add: count_imports_def output_lines_def)
  assume "distinct (filter (\<lambda>l. l \<noteq> []) ls)"
  then show "count_imports rg name dir = card (set (filter (\<lambda>l. l \<noteq> []) ls))"
    using n by (simp only: distinct_card)
next
  assume "\<forall>p \<in> set (import_patterns base). \<not> isl (rg (import_argv p))"
  then show "search_for_import rg base path =
        (\<exists>p \<in> set (import_patterns base). \<exists>out'.
            rg (import_argv p) = Inr out' \<and> external_matches path out' \<noteq> [])"
    by (simp add: search_for_import_def search_patterns_ok)
qed

theorem reference_counter_result_witness:
  "demo_rg [''rg'', ''-l'', ''a'', ''src''] =
     Inr (''src/a.ts'' @ [CHR 0x0A] @ ''src/b.ts'' @ [CHR 0x0A] @ ''src/App.tsx'' @ [CHR 0x0A]) \<and>
   strip (''src/a.ts'' @ [CHR 0x0A] @ ''src/b.ts'' @ [CHR 0x0A] @ ''src/App.tsx'' @ [CHR 0x0A]) =
     join_nl [''src/a.ts'', ''src/b.ts'', ''src/App.tsx''] \<and>
   count_imports demo_rg ''a'' ''src'' = 3 \<and>
   count_imports demo_rg ''a'' ''src'' = card {''src/a.ts'', ''src/b.ts'', ''src/App.tsx''} \<and>
   \<not> (\<exists>p \<in> set (import_patterns ''a''). isl (self_rg (import_argv p))) \<and>
   search_for_import self_rg ''a'' ''src/b.ts'' = True \<and>
   (\<exists>p \<in> set (import_patterns ''a''). \<exists>out'.
       self_rg (import_argv p) = Inr out' \<and> external_matches ''src/b.ts'' out' \<noteq> []) \<and>
   search_for_import self_rg ''a'' ''src/a.ts'' = False \<and>
   \<not> (\<exists>p \<in> set (import_patterns ''a''). \<exists>out'.
       self_rg (import_argv p) = Inr out' \<and> external_matches ''src/a.ts'' out' \<noteq> [])"
proof -
  have r: "demo_rg [''rg'', ''-l'', ''a'', ''src''] =
     Inr (''src/a.ts'' @ [CHR 0x0A] @ ''src/b.ts'' @ [CHR 0x0A] @ ''src/App.tsx'' @ [CHR 0x0A])"
    by (simp add: demo_rg_def)
  have s: "strip (''src/a.ts'' @ [CHR 0x0A] @ ''src/b.ts'' @ [CHR 0x0A] @ ''src/App.tsx'' @ [CHR 0x0A]) =
     join_nl [''src/a.ts'', ''src/b.ts'', ''src/App.tsx'']"
    by code_simp
  have l: "\<forall>l \<in> set [''src/a.ts'', ''src/b.ts'', ''src/App.tsx'']. CHR 0x0A \<notin> set l"
    by simp
  have d: "distinct (filter (\<lambda>l. l \<noteq> []) [''src/a.ts'', ''src/b.ts'', ''src/App.tsx''])"
    by simp
  have ok: "\<forall>p \<in> set (import_patterns ''a''). \<not> isl (self_rg (import_argv p))"
    by (simp add: self_rg_def)
  have t: "search_for_import self_rg ''a'' ''src/b.ts'' = True" by code_simp
  have f: "search_for_import self_rg ''a'' ''src/a.ts'' = False" by code_simp
  have n: "count_imports demo_rg ''a'' ''src'' = 3 \<and>
           count_imports demo_rg ''a'' ''src'' = card {''src/a.ts'', ''src/b.ts'', ''src/App.tsx''}"
    using reference_counter_result [of demo_rg "''a''" "''src''"
        "''src/a.ts'' @ [CHR 0x0A] @ ''src/b.ts'' @ [CHR 0x0A] @ ''src/App.tsx'' @ [CHR 0x0A]"
        "[''src/a.ts'', ''src/b.ts'', ''src/App.tsx'']"] r s l d
    by simp
  have tb: "\<exists>p \<in> set (import_patterns ''a''). \<exists>out'.
       self_rg (import_argv p) = Inr out' \<and> external_matches ''src/b.ts'' out' \<noteq> []"
    using reference_counter_result [of self_rg _ _ _ _ "''a''" "''src/b.ts''"] ok t by blast
  have fa: "\<not> (\<exists>p \<in> set (import_patterns ''a''). \<exists>out'.
       self_rg (import_argv p) = Inr out' \<and> external_matches ''src/a.ts'' out' \<noteq> [])"
    using reference_counter_result [of self_rg _ _ _ _ "''a''" "''src/a.ts''"] ok f by blast
  show ?thesis using r s n ok t f tb fa by blast
qed


text \<open>
  Claim C5, as stated, at a tree whose walk lists \<open>b.ts\<close> before \<open>a.ts\<close>: both
  reports list \<open>a.ts\<close> first.
\<close>

theorem report_walk_order_counterexample:
  "get_all_source_files demo_tree =
     [''src/b.ts'', ''src/a.ts'', ''src/CleanTabNavigator.tsx'', ''src/services/UserGuide.ts''] \<and>
   dict_get (find_unused_main quiet_rg demo_tree) ''other'' =
     [''src/CleanTabNavigator.tsx'', ''src/a.ts'', ''src/b.ts''] \<and>
   truly_all_files demo_tree = [''src/b.ts'', ''src/a.ts'', ''src/services/UserGuide.ts''] \<and>
   dict_get (find_truly_unused_main quiet_rg demo_tree) ''other'' = [''src/a.ts'', ''src/b.ts'']"
proof -
  have a: "get_all_source_files demo_tree =
     [''src/b.ts'', ''src/a.ts'', ''src/CleanTabNavigator.tsx'', ''src/services/UserGuide.ts'']"
    by code_simp
  have b: "dict_get (find_unused_main quiet_rg demo_tree) ''other'' =
     [''src/CleanTabNavigator.tsx'', ''src/a.ts'', ''src/b.ts'']"
    by code_simp
  have c: "truly_all_files demo_tree = [''src/b.ts'', ''src/a.ts'', ''src/services/UserGuide.ts'']"
    by code_simp
  have d: "dict_get (find_truly_unused_main quiet_rg demo_tree) ''other'' = [''src/a.ts'', ''src/b.ts'']"
    by code_simp
  show ?thesis using a b c d by blast
qed

lemma in_map_bucket:
  "(c, files) \<in> set (map (\<lambda>(k, vs). (k, f k)) d) \<Longrightarrow> files = f c"
  by auto

text \<open>
  Claim C5, amended. Each category of the report holds the unused candidates of that
  category in ascending order of their path strings: the candidates are sorted before
  the loop, so the list is the sorted candidate list, filtered.
\<close>

theorem report_sorted_order:
  "((c, files) \<in> set (find_unused_main rg root) \<longrightarrow>
      files = filter (\<lambda>fp. ref_count_of rg fp \<le> 1 \<and> categorize_unused fp = c)
                (sort (get_all_source_files root)) \<and>
      sorted files) \<and>
   ((c, files) \<in> set (find_truly_unused_main rg root) \<longrightarrow>
      files = filter (\<lambda>fp. \<not> is_used rg fp \<and> categorize_truly fp = c)
                (sort (truly_all_files root)) \<and>
      sorted files)"
proof (intro conjI impI)
  assume "(c, files) \<in> set (find_unused_main rg root)"
  then show f: "files = filter (\<lambda>fp. ref_count_of rg fp \<le> 1 \<and> categorize_unused fp = c)
                (sort (get_all_source_files root))"
    unfolding find_unused_main_eq by (rule in_map_bucket)
  show "sorted files" unfolding f by (rule sorted_wrt_filter) simp
next
  assume "(c, files) \<in> set (find_truly_unused_main rg root)"
  then show f: "files = filter (\<lambda>fp. \<not> is_used rg fp \<and> categorize_truly fp = c)
                (sort (truly_all_files root))"
    unfolding find_truly_unused_main_eq by (rule in_map_bucket)
  show "sorted files" unfolding f by (rule sorted_wrt_filter) simp
qed

theorem report_sorted_order_witness:
  "(''other'', [''src/CleanTabNavigator.tsx'', ''src/a.ts'', ''src/b.ts''])
      \<in> set (find_unused_main quiet_rg demo_tree) \<and>
   sorted [''src/CleanTabNavigator.tsx'', ''src/a.ts'', ''src/b.ts''] \<and>
   (''other'', [''src/a.ts'', ''src/b.ts'']) \<in> set (find_truly_unused_main quiet_rg demo_tree) \<and>
   sorted [''src/a.ts'', ''src/b.ts'']"
proof -
  have a: "(''other'', [''src/CleanTabNavigator.tsx'', ''src/a.ts'', ''src/b.ts''])
      \<in> set (find_unused_main quiet_rg demo_tree)"
    by code_simp
  have b: "(''other'', [''src/a.ts'', ''src/b.ts'']) \<in> set (find_truly_unused_main quiet_rg demo_tree)"
    by code_simp
  show ?thesis
    using report_sorted_order [of "''other''" "[''src/CleanTabNavigator.tsx'', ''src/a.ts'', ''src/b.ts'']"
        quiet_rg demo_tree]
      report_sorted_order [of "''other''" "[''src/a.ts'', ''src/b.ts'']" quiet_rg demo_tree] a b
    by blast
qed

text \<open>
  Claim C6, as stated, at an output whose only line comes from the candidate's own file:
  the boolean variant drops the line, the threshold variant counts it.
\<close>

theorem self_match_excluded_counterexample:
  "self_rg [''rg'', ''-l'', ''a'', ''src''] = Inr (''src/a.ts'' @ [CHR 0x0A]) \<and>
   output_lines (''src/a.ts'' @ [CHR 0x0A]) = [''src/a.ts''] \<and>
   str_in ''src/a.ts'' ''src/a.ts'' \<and>
   count_imports self_rg ''a'' ''src'' = 1 \<and>
   ref_count_of self_rg ''src/a.ts'' = 1 \<and>
   search_for_import self_rg ''a'' ''src/a.ts'' = False"
proof -
  have a: "self_rg [''rg'', ''-l'', ''a'', ''src''] = Inr (''src/a.ts'' @ [CHR 0x0A])"
    by (simp add: self_rg_def)
  have b: "output_lines (''src/a.ts'' @ [CHR 0x0A]) = [''src/a.ts'']"
    by code_simp
  have c: "str_in ''src/a.ts'' ''src/a.ts''" by code_simp
  have d: "count_imports self_rg ''a'' ''src'' = 1" by code_simp
  have d': "ref_count_of self_rg ''src/a.ts'' = 1" by code_simp
  have e: "search_for_import self_rg ''a'' ''src/a.ts'' = False" by code_simp
  show ?thesis using a b c d d' e by blast
qed

lemma external_matches_eq:
  "external_matches path out = filter (\<lambda>line. \<not> str_in path line) (output_lines out)"
  by (simp add: external_matches_def output_lines_def conj_commute)

lemma length_filter_split:
  "length xs = length (filter (\<lambda>x. \<not> P x) xs) + length (filter P xs)"
  by (induction xs) auto

text \<open>
  Claim C6, amended. The boolean variant keeps exactly the output lines in which the
  candidate's path does not occur as a substring, and answers from those alone; the
  threshold variant has no such filter: its count includes the lines that contain the
  candidate's path.
\<close>

theorem self_match_filter:
  "(line \<in> set (external_matches path out) \<longleftrightarrow>
      line \<in> set (output_lines out) \<and> \<not> (\<exists>pre post. line = pre @ path @ post)) \<and>
   ((\<forall>p \<in> set (import_patterns base). \<not> isl (rg (import_argv p))) \<longrightarrow>
      search_for_import rg base path =
        (\<exists>p \<in> set (import_patterns base). \<exists>out' l.
            rg (import_argv p) = Inr out' \<and> l \<in> set (output_lines out') \<and> \<not> str_in path l)) \<and>
   (rg [''rg'', ''-l'', name, dir] = Inr out \<longrightarrow>
      count_imports rg name dir =
        length (external_matches path out) +
        length (filter (\<lambda>l. str_in path l) (output_lines out)))"
proof (intro conjI impI)
  show "line \<in> set (external_matches path out) \<longleftrightarrow>
      line \<in> set (output_lines out) \<and> \<not> (\<exists>pre post. line = pre @ path @ post)"
    by (simp add: external_matches_eq str_in_iff)
next
  assume "\<forall>p \<in> set (import_patterns base). \<not> isl (rg (import_argv p))"
  then have "search_for_import rg base path =
        (\<exists>p \<in> set (import_patterns base). \<exists>out'.
            rg (import_argv p) = Inr out' \<and> external_matches path out' \<noteq> [])"
    by (simp add: search_for_import_def search_patterns_ok)
  also have "\<dots> = (\<exists>p \<in> set (import_patterns base). \<exists>out' l.
            rg (import_argv p) = Inr out' \<and> l \<in> set (output_lines out') \<and> \<not> str_in path l)"
    by (simp add: external_matches_eq filter_empty_conv) blast
  finally show "search_for_import rg base path =
        (\<exists>p \<in> set (import_patterns base). \<exists>out' l.
            rg (import_argv p) = Inr out' \<and> l \<in> set (output_lines out') \<and> \<not> str_in path l)" .
next
  assume "rg [''rg'', ''-l'', name, dir] = Inr out"
  then have "count_imports rg name dir = length (output_lines out)"
    by (simp add: count_imports_def)
  then show "count_imports rg name dir =
        length (external_matches path out) +
        length (filter (\<lambda>l. str_in path l) (output_lines out))"
    unfolding external_matches_eq
    using length_filter_split [of "output_lines out" "\<lambda>l. str_in path l"] by simp
qed

theorem self_match_filter_witness:
  "\<not> (\<exists>p \<in> set (import_patterns ''a''). isl (self_rg (import_argv p))) \<and>
   search_for_import self_rg ''a'' ''src/a.ts'' = False \<and>
   \<not> (\<exists>p \<in> set (import_patterns ''a''). \<exists>out' l.
        self_rg (import_argv p) = Inr out' \<and> l \<in> set (output_lines out') \<and>
        \<not> str_in ''src/a.ts'' l) \<and>
   ''./src/a.ts:import a from a'' \<in> set (output_lines (''./src/a.ts:import a from a'' @ [CHR 0x0A])) \<and>
   ''./src/a.ts:import a from a''
      \<notin> set (external_matches ''src/a.ts'' (''./src/a.ts:import a from a'' @ [CHR 0x0A])) \<and>
   self_rg [''rg'', ''-l'', ''a'', ''src''] = Inr (''src/a.ts'' @ [CHR 0x0A]) \<and>
   external_matches ''src/a.ts'' (''src/a.ts'' @ [CHR 0x0A]) = [] \<and>
   filter (\<lambda>l. str_in ''src/a.ts'' l) (output_lines (''src/a.ts'' @ [CHR 0x0A])) = [''src/a.ts''] \<and>
   count_imports self_rg ''a'' ''src'' = 1"
proof -
  have ok: "\<forall>p \<in> set (import_patterns ''a''). \<not> isl (self_rg (import_argv p))"
    by (simp add: self_rg_def)
  have a: "self_rg [''rg'', ''-l'', ''a'', ''src''] = Inr (''src/a.ts'' @ [CHR 0x0A])"
    by (simp add: self_rg_def)
  have b: "external_matches ''src/a.ts'' (''src/a.ts'' @ [CHR 0x0A]) = []"
    by code_simp
  have c: "filter (\<lambda>l. str_in ''src/a.ts'' l) (output_lines (''src/a.ts'' @ [CHR 0x0A])) = [''src/a.ts'']"
    by code_simp
  have e: "search_for_import self_rg ''a'' ''src/a.ts'' = False" by code_simp
  have g: "''./src/a.ts:import a from a'' \<in> set (output_lines (''./src/a.ts:import a from a'' @ [CHR 0x0A]))"
    by code_simp
  have h: "''./src/a.ts:import a from a'' = ''./'' @ ''src/a.ts'' @ '':import a from a''" by simp
  have i: "''./src/a.ts:import a from a''
      \<notin> set (external_matches ''src/a.ts'' (''./src/a.ts:import a from a'' @ [CHR 0x0A]))"
    using self_match_filter [of "''./src/a.ts:import a from a''" "''src/a.ts''"
        "''./src/a.ts:import a from a'' @ [CHR 0x0A]"] h by blast
  have f: "\<not> (\<exists>p \<in> set (import_patterns ''a''). \<exists>out' l.
        self_rg (import_argv p) = Inr out' \<and> l \<in> set (output_lines out') \<and>
        \<not> str_in ''src/a.ts'' l)"
    using self_match_filter [of _ "''src/a.ts''" _ "''a''" self_rg] ok e by blast
  have d: "count_imports self_rg ''a'' ''src'' = 1"
    using self_match_filter [of _ "''src/a.ts''" "''src/a.ts'' @ [CHR 0x0A]" "''a''"
        self_rg "''a''" "''src''"] a b c
    by simp
  show ?thesis using ok a b c d e f g i by blast
qed


text \<open>
  Claim C7, as stated, at \<open>src/services/UserGuide.ts\<close>: the threshold variant has no
  documentation check and files it under services.
\<close>

theorem documentation_first_counterexample:
  "''src/services/UserGuide.ts'' \<in> set (get_all_source_files demo_tree) \<and>
   str_in ''Guide'' (basename ''src/services/UserGuide.ts'') \<and>
   categorize_unused ''src/services/UserGuide.ts'' = ''services'' \<and>
   dict_get (find_unused_main quiet_rg demo_tree) ''services'' = [''src/services/UserGuide.ts''] \<and>
   dict_get (find_unused_main quiet_rg demo_tree) ''documentation'' = [] \<and>
   dict_get (find_truly_unused_main quiet_rg demo_tree) ''documentation'' =
     [''src/services/UserGuide.ts'']"
proof -
  have a: "''src/services/UserGuide.ts'' \<in> set (get_all_source_files demo_tree)" by code_simp
  have b: "str_in ''Guide'' (basename ''src/services/UserGuide.ts'')" by code_simp
  have c: "categorize_unused ''src/services/UserGuide.ts'' = ''services''" by code_simp
  have d: "dict_get (find_unused_main quiet_rg demo_tree) ''services'' = [''src/services/UserGuide.ts'']"
    by code_simp
  have e: "dict_get (find_unused_main quiet_rg demo_tree) ''documentation'' = []" by code_simp
  have f: "dict_get (find_truly_unused_main quiet_rg demo_tree) ''documentation'' =
     [''src/services/UserGuide.ts'']" by code_simp
  show ?thesis using a b c d e f by blast
qed

lemma dict_get_unused:
  "dict_get (find_unused_main rg root) c =
     (if c \<in> fst ` set unused_categories
      then filter (\<lambda>fp. ref_count_of rg fp \<le> 1 \<and> categorize_unused fp = c)
             (sort (get_all_source_files root))
      else [])"
  unfolding find_unused_main_eq
  by (rule dict_get_map [OF distinct_unused_keys])

lemma dict_get_truly:
  "dict_get (find_truly_unused_main rg root) c =
     (if c \<in> fst ` set truly_categories
      then filter (\<lambda>fp. \<not> is_used rg fp \<and> categorize_truly fp = c)
             (sort (truly_all_files root))
      else [])"
  unfolding find_truly_unused_main_eq
  by (rule dict_get_map [OF distinct_truly_keys])

text \<open>
  Claim C7, amended. In both variants a file judged unused is in the list of exactly one
  category, the one its categorization function returns, with other as the fallback.
  The boolean variant tests the documentation names first, then services,
  components or flows, screens; the threshold variant has no documentation category and
  tests directory segments only: its category is that of the first segment, in the order
  components, screens, services, stores, hooks, types, utils, constants, flows, contexts,
  navigation, theme, that occurs in the path.
\<close>

theorem categorization_total:
  "(fp \<in> set (dict_get (find_unused_main rg root) c) \<longleftrightarrow>
      fp \<in> set (get_all_source_files root) \<and> ref_count_of rg fp \<le> 1 \<and> c = categorize_unused fp) \<and>
   (fp \<in> set (dict_get (find_truly_unused_main rg root) c) \<longleftrightarrow>
      fp \<in> set (truly_all_files root) \<and> \<not> is_used rg fp \<and> c = categorize_truly fp) \<and>
   (str_in ''Guide'' (basename fp) \<or> str_in ''Validation'' (basename fp) \<longrightarrow>
      categorize_truly fp = ''documentation'') \<and>
   (\<not> str_in ''Guide'' (basename fp) \<and> \<not> str_in ''Validation'' (basename fp) \<longrightarrow>
      categorize_truly fp =
        (if str_in ''/services/'' fp then ''services''
         else if str_in ''/components/'' fp \<or> str_in ''/flows/'' fp then ''components''
         else if str_in ''/screens/'' fp then ''screens''
         else ''other'')) \<and>
   categorize_unused fp =
     (case find (\<lambda>(seg, cat). str_in seg fp)
                [(''/components/'', ''components''), (''/screens/'', ''screens''),
                 (''/services/'', ''services''), (''/stores/'', ''stores''),
                 (''/hooks/'', ''hooks''), (''/types/'', ''types''),
                 (''/utils/'', ''utils''), (''/constants/'', ''constants''),
                 (''/flows/'', ''flows''), (''/contexts/'', ''contexts''),
                 (''/navigation/'', ''navigation''), (''/theme/'', ''theme'')] of
          None \<Rightarrow> ''other''
        | Some (seg, cat) \<Rightarrow> cat) \<and>
   categorize_unused fp \<noteq> ''documentation'' \<and>
   (str_in ''/components/'' fp \<longrightarrow> categorize_unused fp = ''components'') \<and>
   (\<not> (\<exists>seg \<in> set [''/components/'', ''/screens/'', ''/services/'', ''/stores/'', ''/hooks/'',
                     ''/types/'', ''/utils/'', ''/constants/'', ''/flows/'', ''/contexts/'',
                     ''/navigation/'', ''/theme/'']. str_in seg fp) \<longrightarrow>
      categorize_unused fp = ''other'')"
proof (intro conjI)
  show "fp \<in> set (dict_get (find_unused_main rg root) c) \<longleftrightarrow>
      fp \<in> set (get_all_source_files root) \<and> ref_count_of rg fp \<le> 1 \<and> c = categorize_unused fp"
    using categorize_unused_key [of fp] by (auto simp: dict_get_unused)
  show "fp \<in> set (dict_get (find_truly_unused_main rg root) c) \<longleftrightarrow>
      fp \<in> set (truly_all_files root) \<and> \<not> is_used rg fp \<and> c = categorize_truly fp"
    using categorize_truly_key [of fp] by (auto simp: dict_get_truly)
  show "str_in ''Guide'' (basename fp) \<or> str_in ''Validation'' (basename fp) \<longrightarrow>
      categorize_truly fp = ''documentation''"
    by (simp add: categorize_truly_def)
  show "\<not> str_in ''Guide'' (basename fp) \<and> \<not> str_in ''Validation'' (basename fp) \<longrightarrow>
      categorize_truly fp =
        (if str_in ''/services/'' fp then ''services''
         else if str_in ''/components/'' fp \<or> str_in ''/flows/'' fp then ''components''
         else if str_in ''/screens/'' fp then ''screens''
         else ''other'')"
    by (simp add: categorize_truly_def)
  show "categorize_unused fp =
     (case find (\<lambda>(seg, cat). str_in seg fp)
                [(''/components/'', ''components''), (''/screens/'', ''screens''),
                 (''/services/'', ''services''), (''/stores/'', ''stores''),
                 (''/hooks/'', ''hooks''), (''/types/'', ''types''),
                 (''/utils/'', ''utils''), (''/constants/'', ''constants''),
                 (''/flows/'', ''flows''), (''/contexts/'', ''contexts''),
                 (''/navigation/'', ''navigation''), (''/theme/'', ''theme'')] of
          None \<Rightarrow> ''other''
        | Some (seg, cat) \<Rightarrow> cat)"
    by (simp add: categorize_unused_def)
  show "categorize_unused fp \<noteq> ''documentation''"
    by (simp add: categorize_unused_def)
  show "str_in ''/components/'' fp \<longrightarrow> categorize_unused fp = ''components''"
    by (simp add: categorize_unused_def)
  show "\<not> (\<exists>seg \<in> set [''/components/'', ''/screens/'', ''/services/'', ''/stores/'', ''/hooks/'',
                     ''/types/'', ''/utils/'', ''/constants/'', ''/flows/'', ''/contexts/'',
                     ''/navigation/'', ''/theme/'']. str_in seg fp) \<longrightarrow>
      categorize_unused fp = ''other''"
    by (simp add: categorize_unused_def)
qed

theorem categorization_total_witness:
  "''src/services/UserGuide.ts'' \<in> set (get_all_source_files demo_tree) \<and>
   ref_count_of quiet_rg ''src/services/UserGuide.ts'' = 0 \<and>
   categorize_unused ''src/services/UserGuide.ts'' = ''services'' \<and>
   ''src/services/UserGuide.ts'' \<in> set (dict_get (find_unused_main quiet_rg demo_tree) ''services'') \<and>
   ''src/services/UserGuide.ts'' \<notin> set (dict_get (find_unused_main quiet_rg demo_tree) ''other'') \<and>
   ''src/services/UserGuide.ts'' \<in> set (truly_all_files demo_tree) \<and>
   \<not> is_used quiet_rg ''src/services/UserGuide.ts'' \<and>
   str_in ''Guide'' (basename ''src/services/UserGuide.ts'') \<and>
   categorize_truly ''src/services/UserGuide.ts'' = ''documentation'' \<and>
   ''src/services/UserGuide.ts''
      \<in> set (dict_get (find_truly_unused_main quiet_rg demo_tree) ''documentation'') \<and>
   ''src/services/UserGuide.ts''
      \<notin> set (dict_get (find_truly_unused_main quiet_rg demo_tree) ''services'') \<and>
   \<not> str_in ''Guide'' (basename ''src/a.ts'') \<and> \<not> str_in ''Validation'' (basename ''src/a.ts'') \<and>
   categorize_truly ''src/a.ts'' = ''other'' \<and>
   categorize_unused ''src/a.ts'' = ''other'' \<and>
   str_in ''/components/'' ''src/components/Card.tsx'' \<and>
   categorize_unused ''src/components/Card.tsx'' = ''components'' \<and>
   categorize_unused ''src/services/screens/Home.tsx'' = ''screens'' \<and>
   categorize_unused ''src/stores/services/api.ts'' = ''services'' \<and>
   categorize_unused ''src/hooks/stores/useStore.ts'' = ''stores'' \<and>
   categorize_unused ''src/types/hooks/useX.ts'' = ''hooks'' \<and>
   categorize_unused ''src/utils/types/t.ts'' = ''types'' \<and>
   categorize_unused ''src/constants/utils/u.ts'' = ''utils'' \<and>
   categorize_unused ''src/flows/constants/c.ts'' = ''constants'' \<and>
   categorize_unused ''src/contexts/flows/f.tsx'' = ''flows'' \<and>
   categorize_unused ''src/navigation/contexts/c.tsx'' = ''contexts'' \<and>
   categorize_unused ''src/theme/navigation/n.ts'' = ''navigation'' \<and>
   categorize_unused ''src/theme/colors.ts'' = ''theme''"
proof -
  have a: "''src/services/UserGuide.ts'' \<in> set (get_all_source_files demo_tree)" by code_simp
  have b: "ref_count_of quiet_rg ''src/services/UserGuide.ts'' = 0" by code_simp
  have c: "''src/services/UserGuide.ts'' \<in> set (truly_all_files demo_tree)" by code_simp
  have d: "\<not> is_used quiet_rg ''src/services/UserGuide.ts''" by code_simp
  have e: "str_in ''Guide'' (basename ''src/services/UserGuide.ts'')" by code_simp
  have f: "categorize_unused ''src/services/UserGuide.ts'' = ''services''" by code_simp
  have g: "\<not> str_in ''Guide'' (basename ''src/a.ts'')" "\<not> str_in ''Validation'' (basename ''src/a.ts'')"
    by code_simp+
  have s1: "\<not> str_in ''/services/'' ''src/a.ts''" "\<not> str_in ''/components/'' ''src/a.ts''"
    "\<not> str_in ''/flows/'' ''src/a.ts''" "\<not> str_in ''/screens/'' ''src/a.ts''"
    by code_simp+
  have s2: "\<not> (\<exists>seg \<in> set [''/components/'', ''/screens/'', ''/services/'', ''/stores/'', ''/hooks/'',
                     ''/types/'', ''/utils/'', ''/constants/'', ''/flows/'', ''/contexts/'',
                     ''/navigation/'', ''/theme/'']. str_in seg ''src/a.ts'')"
    by code_simp
  have "categorize_truly ''src/a.ts'' =
        (if str_in ''/services/'' ''src/a.ts'' then ''services''
         else if str_in ''/components/'' ''src/a.ts'' \<or> str_in ''/flows/'' ''src/a.ts'' then ''components''
         else if str_in ''/screens/'' ''src/a.ts'' then ''screens''
         else ''other'')"
    using categorization_total [of "''src/a.ts''"] g by blast
  then have h1: "categorize_truly ''src/a.ts'' = ''other''"
    by (simp only: s1 if_False simp_thms)
  have h2: "categorize_unused ''src/a.ts'' = ''other''"
    using categorization_total [of "''src/a.ts''"] s2 by blast
  note h = h1 h2
  have i: "str_in ''/components/'' ''src/components/Card.tsx''" by code_simp
  have j: "categorize_truly ''src/services/UserGuide.ts'' = ''documentation''"
    using categorization_total [of "''src/services/UserGuide.ts''"] e by blast
  have k: "categorize_unused ''src/components/Card.tsx'' = ''components''"
    using categorization_total [of "''src/components/Card.tsx''"] i by blast
  have l: "''src/services/UserGuide.ts'' \<in> set (dict_get (find_unused_main quiet_rg demo_tree) ''services'')"
    using categorization_total [of "''src/services/UserGuide.ts''" quiet_rg demo_tree "''services''"] a b f
    by simp
  have m: "''src/services/UserGuide.ts'' \<notin> set (dict_get (find_unused_main quiet_rg demo_tree) ''other'')"
    using categorization_total [of "''src/services/UserGuide.ts''" quiet_rg demo_tree "''other''"] f
    by simp
  have n: "''src/services/UserGuide.ts''
      \<in> set (dict_get (find_truly_unused_main quiet_rg demo_tree) ''documentation'')"
    using categorization_total [of "''src/services/UserGuide.ts''" quiet_rg demo_tree "''documentation''"] c d j
    by simp
  have o: "''src/services/UserGuide.ts''
      \<notin> set (dict_get (find_truly_unused_main quiet_rg demo_tree) ''services'')"
    using categorization_total [of "''src/services/UserGuide.ts''" quiet_rg demo_tree "''services''"] j
    by simp
  have f0: "find (\<lambda>(seg, cat). str_in seg ''src/services/screens/Home.tsx'')
               [(''/components/'', ''components''), (''/screens/'', ''screens''),
                 (''/services/'', ''services''), (''/stores/'', ''stores''),
                 (''/hooks/'', ''hooks''), (''/types/'', ''types''),
                 (''/utils/'', ''utils''), (''/constants/'', ''constants''),
                 (''/flows/'', ''flows''), (''/contexts/'', ''contexts''),
                 (''/navigation/'', ''navigation''), (''/theme/'', ''theme'')] = Some (''/screens/'', ''screens'')"
    by code_simp
  have o0: "categorize_unused ''src/services/screens/Home.tsx'' = ''screens''"
    using categorization_total [of "''src/services/screens/Home.tsx''"] by (simp add: f0)
  have f1: "find (\<lambda>(seg, cat). str_in seg ''src/stores/services/api.ts'')
               [(''/components/'', ''components''), (''/screens/'', ''screens''),
                 (''/services/'', ''services''), (''/stores/'', ''stores''),
                 (''/hooks/'', ''hooks''), (''/types/'', ''types''),
                 (''/utils/'', ''utils''), (''/constants/'', ''constants''),
                 (''/flows/'', ''flows''), (''/contexts/'', ''contexts''),
                 (''/navigation/'', ''navigation''), (''/theme/'', ''theme'')] = Some (''/services/'', ''services'')"
    by code_simp
  have o1: "categorize_unused ''src/stores/services/api.ts'' = ''services''"
    using categorization_total [of "''src/stores/services/api.ts''"] by (simp add: f1)
  have f2: "find (\<lambda>(seg, cat). str_in seg ''src/hooks/stores/useStore.ts'')
               [(''/components/'', ''components''), (''/screens/'', ''screens''),
                 (''/services/'', ''services''), (''/stores/'', ''stores''),
                 (''/hooks/'', ''hooks''), (''/types/'', ''types''),
                 (''/utils/'', ''utils''), (''/constants/'', ''constants''),
                 (''/flows/'', ''flows''), (''/contexts/'', ''contexts''),
                 (''/navigation/'', ''navigation''), (''/theme/'', ''theme'')] = Some (''/stores/'', ''stores'')"
    by code_simp
  have o2: "categorize_unused ''src/hooks/stores/useStore.ts'' = ''stores''"
    using categorization_total [of "''src/hooks/stores/useStore.ts''"] by (simp add: f2)
  have f3: "find (\<lambda>(seg, cat). str_in seg ''src/types/hooks/useX.ts'')
               [(''/components/'', ''components''), (''/screens/'', ''screens''),
                 (''/services/'', ''services''), (''/stores/'', ''stores''),
                 (''/hooks/'', ''hooks''), (''/types/'', ''types''),
                 (''/utils/'', ''utils''), (''/constants/'', ''constants''),
                 (''/flows/'', ''flows''), (''/contexts/'', ''contexts''),
                 (''/navigation/'', ''navigation''), (''/theme/'', ''theme'')] = Some (''/hooks/'', ''hooks'')"
    by code_simp
  have o3: "categorize_unused ''src/types/hooks/useX.ts'' = ''hooks''"
    using categorization_total [of "''src/types/hooks/useX.ts''"] by (simp add: f3)
  have f4: "find (\<lambda>(seg, cat). str_in seg ''src/utils/types/t.ts'')
               [(''/components/'', ''components''), (''/screens/'', ''screens''),
                 (''/services/'', ''services''), (''/stores/'', ''stores''),
                 (''/hooks/'', ''hooks''), (''/types/'', ''types''),
                 (''/utils/'', ''utils''), (''/constants/'', ''constants''),
                 (''/flows/'', ''flows''), (''/contexts/'', ''contexts''),
                 (''/navigation/'', ''navigation''), (''/theme/'', ''theme'')] = Some (''/types/'', ''types'')"
    by code_simp
  have o4: "categorize_unused ''src/utils/types/t.ts'' = ''types''"
    using categorization_total [of "''src/utils/types/t.ts''"] by (simp add: f4)
  have f5: "find (\<lambda>(seg, cat). str_in seg ''src/constants/utils/u.ts'')
               [(''/components/'', ''components''), (''/screens/'', ''screens''),
                 (''/services/'', ''services''), (''/stores/'', ''stores''),
                 (''/hooks/'', ''hooks''), (''/types/'', ''types''),
                 (''/utils/'', ''utils''), (''/constants/'', ''constants''),
                 (''/flows/'', ''flows''), (''/contexts/'', ''contexts''),
                 (''/navigation/'', ''navigation''), (''/theme/'', ''theme'')] = Some (''/utils/'', ''utils'')"
    by code_simp
  have o5: "categorize_unused ''src/constants/utils/u.ts'' = ''utils''"
    using categorization_total [of "''src/constants/utils/u.ts''"] by (simp add: f5)
  have f6: "find (\<lambda>(seg, cat). str_in seg ''src/flows/constants/c.ts'')
               [(''/components/'', ''components''), (''/screens/'', ''screens''),
                 (''/services/'', ''services''), (''/stores/'', ''stores''),
                 (''/hooks/'', ''hooks''), (''/types/'', ''types''),
                 (''/utils/'', ''utils''), (''/constants/'', ''constants''),
                 (''/flows/'', ''flows''), (''/contexts/'', ''contexts''),
                 (''/navigation/'', ''navigation''), (''/theme/'', ''theme'')] = Some (''/constants/'', ''constants'')"
    by code_simp
  have o6: "categorize_unused ''src/flows/constants/c.ts'' = ''constants''"
    using categorization_total [of "''src/flows/constants/c.ts''"] by (simp add: f6)
  have f7: "find (\<lambda>(seg, cat). str_in seg ''src/contexts/flows/f.tsx'')
               [(''/components/'', ''components''), (''/screens/'', ''screens''),
                 (''/services/'', ''services''), (''/stores/'', ''stores''),
                 (''/hooks/'', ''hooks''), (''/types/'', ''types''),
                 (''/utils/'', ''utils''), (''/constants/'', ''constants''),
                 (''/flows/'', ''flows''), (''/contexts/'', ''contexts''),
                 (''/navigation/'', ''navigation''), (''/theme/'', ''theme'')] = Some (''/flows/'', ''flows'')"
    by code_simp
  have o7: "categorize_unused ''src/contexts/flows/f.tsx'' = ''flows''"
    using categorization_total [of "''src/contexts/flows/f.tsx''"] by (simp add: f7)
  have f8: "find (\<lambda>(seg, cat). str_in seg ''src/navigation/contexts/c.tsx'')
               [(''/components/'', ''components''), (''/screens/'', ''screens''),
                 (''/services/'', ''services''), (''/stores/'', ''stores''),
                 (''/hooks/'', ''hooks''), (''/types/'', ''types''),
                 (''/utils/'', ''utils''), (''/constants/'', ''constants''),
                 (''/flows/'', ''flows''), (''/contexts/'', ''contexts''),
                 (''/navigation/'', ''navigation''), (''/theme/'', ''theme'')] = Some (''/contexts/'', ''contexts'')"
    by code_simp
  have o8: "categorize_unused ''src/navigation/contexts/c.tsx'' = ''contexts''"
    using categorization_total [of "''src/navigation/contexts/c.tsx''"] by (simp add: f8)
  have f9: "find (\<lambda>(seg, cat). str_in seg ''src/theme/navigation/n.ts'')
               [(''/components/'', ''components''), (''/screens/'', ''screens''),
                 (''/services/'', ''services''), (''/stores/'', ''stores''),
                 (''/hooks/'', ''hooks''), (''/types/'', ''types''),
                 (''/utils/'', ''utils''), (''/constants/'', ''constants''),
                 (''/flows/'', ''flows''), (''/contexts/'', ''contexts''),
                 (''/navigation/'', ''navigation''), (''/theme/'', ''theme'')] = Some (''/navigation/'', ''navigation'')"
    by code_simp
  have o9: "categorize_unused ''src/theme/navigation/n.ts'' = ''navigation''"
    using categorization_total [of "''src/theme/navigation/n.ts''"] by (simp add: f9)
  have f10: "find (\<lambda>(seg, cat). str_in seg ''src/theme/colors.ts'')
               [(''/components/'', ''components''), (''/screens/'', ''screens''),
                 (''/services/'', ''services''), (''/stores/'', ''stores''),
                 (''/hooks/'', ''hooks''), (''/types/'', ''types''),
                 (''/utils/'', ''utils''), (''/constants/'', ''constants''),
                 (''/flows/'', ''flows''), (''/contexts/'', ''contexts''),
                 (''/navigation/'', ''navigation''), (''/theme/'', ''theme'')] = Some (''/theme/'', ''theme'')"
    by code_simp
  have o10: "categorize_unused ''src/theme/colors.ts'' = ''theme''"
    using categorization_total [of "''src/theme/colors.ts''"] by (simp add: f10)
  show ?thesis using a b c d e f g h i j k l m n o o0 o1 o2 o3 o4 o5 o6 o7 o8 o9 o10 by blast
qed

section \<open>Properties of the cleanup script\<close>

lemma remove_file_step_line:
  "\<exists>line. c_out (remove_file_step ops p st) = c_out st @ [line] \<and>
          c_count (remove_file_step ops p st) = c_count st + (if removed_notice line then 1 else 0)"
proof (cases "os_path_exists ops (c_fs st) p")
  case False
  then show ?thesis
    by (intro exI [of _ "''File not found: '' @ p"])
      (simp add: remove_file_step_def removed_notice_def startswith_def)
next
  case True
  obtain r fs' where o: "os_remove ops (c_fs st) p = (r, fs')" by (cases "os_remove ops (c_fs st) p")
  show ?thesis
  proof (cases r)
    case (Inl e)
    with True o show ?thesis
      by (intro exI [of _ "''Error removing file '' @ p @ '': '' @ error_text e"])
        (simp add: remove_file_step_def removed_notice_def startswith_def)
  next
    case (Inr u)
    with True o show ?thesis
      by (intro exI [of _ "''Removed file: '' @ p"])
        (simp add: remove_file_step_def removed_notice_def startswith_def)
  qed
qed

lemma remove_dir_step_line:
  "\<exists>line. c_out (remove_dir_step ops p st) = c_out st @ [line] \<and>
          c_count (remove_dir_step ops p st) = c_count st + (if removed_notice line then 1 else 0)"
proof (cases "os_path_exists ops (c_fs st) p")
  case False
  then show ?thesis
    by (intro exI [of _ "''Directory not found: '' @ p"])
      (simp add: remove_dir_step_def removed_notice_def startswith_def)
next
  case True
  obtain r fs' where o: "shutil_rmtree ops (c_fs st) p = (r, fs')" by (cases "shutil_rmtree ops (c_fs st) p")
  show ?thesis
  proof (cases r)
    case (Inl e)
    with True o show ?thesis
      by (intro exI [of _ "''Error removing directory '' @ p @ '': '' @ error_text e"])
        (simp add: remove_dir_step_def removed_notice_def startswith_def)
  next
    case (Inr u)
    with True o show ?thesis
      by (intro exI [of _ "''Removed directory: '' @ p"])
        (simp add: remove_dir_step_def removed_notice_def startswith_def)
  qed
qed

lemma fold_step_lines:
  assumes step: "\<And>p st. \<exists>line. c_out (f p st) = c_out st @ [line] \<and>
          c_count (f p st) = c_count st + (if removed_notice line then 1 else 0)"
  shows "\<exists>new. c_out (fold f ps st) = c_out st @ new \<and> length new = length ps \<and>
          c_count (fold f ps st) = c_count st + length (filter removed_notice new)"
proof (induction ps arbitrary: st)
  case Nil
  show ?case by simp
next
  case (Cons p ps)
  obtain line where l: "c_out (f p st) = c_out st @ [line]"
      "c_count (f p st) = c_count st + (if removed_notice line then 1 else 0)"
    using step by blast
  obtain new where n: "c_out (fold f ps (f p st)) = c_out (f p st) @ new" "length new = length ps"
      "c_count (fold f ps (f p st)) = c_count (f p st) + length (filter removed_notice new)"
    using Cons.IH by blast
  have "c_out (fold f (p # ps) st) = c_out st @ (line # new)" using l n by simp
  moreover have "length (line # new) = length (p # ps)" using n by simp
  moreover have "c_count (fold f (p # ps) st) = c_count st + length (filter removed_notice (line # new))"
    using l n by simp
  ultimately show ?case by blast
qed

lemma cleanup_loops_lines:
  "\<exists>new. c_out (cleanup_loops ops files dirs st) = c_out st @ new \<and>
         length new = length files + length dirs \<and>
         c_count (cleanup_loops ops files dirs st) = c_count st + length (filter removed_notice new)"
proof -
  let ?mid = "fold (remove_file_step ops) files st"
  obtain n1 where a: "c_out ?mid = c_out st @ n1" "length n1 = length files"
      "c_count ?mid = c_count st + length (filter removed_notice n1)"
    using fold_step_lines [of "remove_file_step ops" files st, OF remove_file_step_line] by blast
  obtain n2 where b: "c_out (fold (remove_dir_step ops) dirs ?mid) = c_out ?mid @ n2"
      "length n2 = length dirs"
      "c_count (fold (remove_dir_step ops) dirs ?mid) = c_count ?mid + length (filter removed_notice n2)"
    using fold_step_lines [of "remove_dir_step ops" dirs ?mid, OF remove_dir_step_line] by blast
  have "c_out (cleanup_loops ops files dirs st) = c_out st @ (n1 @ n2)"
    using a b by (simp add: cleanup_loops_def)
  moreover have "length (n1 @ n2) = length files + length dirs" using a b by simp
  moreover have "c_count (cleanup_loops ops files dirs st) =
      c_count st + length (filter removed_notice (n1 @ n2))"
    using a b by (simp add: cleanup_loops_def)
  ultimately show ?thesis by blast
qed

lemma fold_absent_files:
  "\<forall>p \<in> set ps. \<not> os_path_exists ops (c_fs st) p \<Longrightarrow>
   fold (remove_file_step ops) ps st =
     st\<lparr>c_out := c_out st @ map (\<lambda>p. ''File not found: '' @ p) ps\<rparr>"
proof (induction ps arbitrary: st)
  case Nil
  show ?case by simp
next
  case (Cons p ps)
  have s: "remove_file_step ops p st = st\<lparr>c_out := c_out st @ [''File not found: '' @ p]\<rparr>"
    using Cons.prems by (simp add: remove_file_step_def)
  have "\<forall>q \<in> set ps. \<not> os_path_exists ops (c_fs (remove_file_step ops p st)) q"
    using Cons.prems by (simp add: s)
  from Cons.IH [OF this] show ?case by (simp add: s)
qed

lemma fold_absent_dirs:
  "\<forall>p \<in> set ps. \<not> os_path_exists ops (c_fs st) p \<Longrightarrow>
   fold (remove_dir_step ops) ps st =
     st\<lparr>c_out := c_out st @ map (\<lambda>p. ''Directory not found: '' @ p) ps\<rparr>"
proof (induction ps arbitrary: st)
  case Nil
  show ?case by simp
next
  case (Cons p ps)
  have s: "remove_dir_step ops p st = st\<lparr>c_out := c_out st @ [''Directory not found: '' @ p]\<rparr>"
    using Cons.prems by (simp add: remove_dir_step_def)
  have "\<forall>q \<in> set ps. \<not> os_path_exists ops (c_fs (remove_dir_step ops p st)) q"
    using Cons.prems by (simp add: s)
  from Cons.IH [OF this] show ?case by (simp add: s)
qed

text \<open>
  Claim C9. For a listed path that does not exist the cleanup script prints the not-found
  notice and changes neither the count nor the file system; a removal that raises leaves
  the count unchanged and a removal that succeeds adds one to it; every listed path gets
  exactly one notice, so the loops never stop early; the final count is the number of
  success notices; and when no listed path exists the run only prints not-found notices.
\<close>

theorem cleanup_absent_skipped:
  "(\<not> os_path_exists ops (c_fs st) p \<longrightarrow>
      remove_file_step ops p st = st\<lparr>c_out := c_out st @ [''File not found: '' @ p]\<rparr> \<and>
      remove_dir_step ops p st = st\<lparr>c_out := c_out st @ [''Directory not found: '' @ p]\<rparr>) \<and>
   (os_path_exists ops (c_fs st) p \<and> os_remove ops (c_fs st) p = (Inl e, fs') \<longrightarrow>
      c_count (remove_file_step ops p st) = c_count st) \<and>
   (os_path_exists ops (c_fs st) p \<and> os_remove ops (c_fs st) p = (Inr u, fs') \<longrightarrow>
      c_count (remove_file_step ops p st) = c_count st + 1) \<and>
   (os_path_exists ops (c_fs st) p \<and> shutil_rmtree ops (c_fs st) p = (Inl e, fs') \<longrightarrow>
      c_count (remove_dir_step ops p st) = c_count st) \<and>
   (os_path_exists ops (c_fs st) p \<and> shutil_rmtree ops (c_fs st) p = (Inr u, fs') \<longrightarrow>
      c_count (remove_dir_step ops p st) = c_count st + 1) \<and>
   length (c_out (cleanup_loops ops files dirs st)) = length (c_out st) + length files + length dirs \<and>
   c_count (cleanup_loops ops files dirs st) =
     c_count st +
     length (filter removed_notice (drop (length (c_out st)) (c_out (cleanup_loops ops files dirs st)))) \<and>
   ((\<forall>q \<in> set (files @ dirs). \<not> os_path_exists ops (c_fs st) q) \<longrightarrow>
      cleanup_loops ops files dirs st =
        st\<lparr>c_out := c_out st @ map (\<lambda>q. ''File not found: '' @ q) files
                               @ map (\<lambda>q. ''Directory not found: '' @ q) dirs\<rparr>)"
proof -
  obtain new where n: "c_out (cleanup_loops ops files dirs st) = c_out st @ new"
      "length new = length files + length dirs"
      "c_count (cleanup_loops ops files dirs st) = c_count st + length (filter removed_notice new)"
    using cleanup_loops_lines by blast
  have g1: "length (c_out (cleanup_loops ops files dirs st)) =
      length (c_out st) + length files + length dirs"
    using n by simp
  have g2: "c_count (cleanup_loops ops files dirs st) =
     c_count st +
     length (filter removed_notice (drop (length (c_out st)) (c_out (cleanup_loops ops files dirs st))))"
    using n by simp
  have g3: "(\<forall>q \<in> set (files @ dirs). \<not> os_path_exists ops (c_fs st) q) \<longrightarrow>
      cleanup_loops ops files dirs st =
        st\<lparr>c_out := c_out st @ map (\<lambda>q. ''File not found: '' @ q) files
                               @ map (\<lambda>q. ''Directory not found: '' @ q) dirs\<rparr>"
  proof
    assume a: "\<forall>q \<in> set (files @ dirs). \<not> os_path_exists ops (c_fs st) q"
    then have f: "fold (remove_file_step ops) files st =
        st\<lparr>c_out := c_out st @ map (\<lambda>q. ''File not found: '' @ q) files\<rparr>"
      by (intro fold_absent_files) simp
    have "\<forall>q \<in> set dirs. \<not> os_path_exists ops
        (c_fs (st\<lparr>c_out := c_out st @ map (\<lambda>q. ''File not found: '' @ q) files\<rparr>)) q"
      using a by simp
    from fold_absent_dirs [OF this] show "cleanup_loops ops files dirs st =
        st\<lparr>c_out := c_out st @ map (\<lambda>q. ''File not found: '' @ q) files
                               @ map (\<lambda>q. ''Directory not found: '' @ q) dirs\<rparr>"
      by (simp add: cleanup_loops_def f)
  qed
  have s1: "\<not> os_path_exists ops (c_fs st) p \<longrightarrow>
      remove_file_step ops p st = st\<lparr>c_out := c_out st @ [''File not found: '' @ p]\<rparr> \<and>
      remove_dir_step ops p st = st\<lparr>c_out := c_out st @ [''Directory not found: '' @ p]\<rparr>"
    by (simp add: remove_file_step_def remove_dir_step_def)
  have s2: "os_path_exists ops (c_fs st) p \<and> os_remove ops (c_fs st) p = (Inl e, fs') \<longrightarrow>
      c_count (remove_file_step ops p st) = c_count st"
    by (simp add: remove_file_step_def)
  have s3: "os_path_exists ops (c_fs st) p \<and> os_remove ops (c_fs st) p = (Inr u, fs') \<longrightarrow>
      c_count (remove_file_step ops p st) = c_count st + 1"
    by (simp add: remove_file_step_def)
  have s4: "os_path_exists ops (c_fs st) p \<and> shutil_rmtree ops (c_fs st) p = (Inl e, fs') \<longrightarrow>
      c_count (remove_dir_step ops p st) = c_count st"
    by (simp add: remove_dir_step_def)
  have s5: "os_path_exists ops (c_fs st) p \<and> shutil_rmtree ops (c_fs st) p = (Inr u, fs') \<longrightarrow>
      c_count (remove_dir_step ops p st) = c_count st + 1"
    by (simp add: remove_dir_step_def)
  show ?thesis using s1 s2 s3 s4 s5 g1 g2 g3 by blast
qed

theorem cleanup_absent_skipped_witness:
  "\<not> os_path_exists demo_ops (c_fs demo_state) ''/gone'' \<and>
   remove_file_step demo_ops ''/gone'' demo_state =
     demo_state\<lparr>c_out := c_out demo_state @ [''File not found: /gone'']\<rparr> \<and>
   remove_dir_step demo_ops ''/gone'' demo_state =
     demo_state\<lparr>c_out := c_out demo_state @ [''Directory not found: /gone'']\<rparr> \<and>
   os_path_exists demo_ops (c_fs demo_state) ''/locked'' \<and>
   os_remove demo_ops (c_fs demo_state) ''/locked'' =
     (Inl (OSError ''Permission denied''), c_fs demo_state) \<and>
   c_count (remove_file_step demo_ops ''/locked'' demo_state) = c_count demo_state \<and>
   os_path_exists demo_ops (c_fs demo_state) ''/a'' \<and>
   os_remove demo_ops (c_fs demo_state) ''/a'' = (Inr (), [''/locked'', ''/b'', ''/d'', ''/keep'']) \<and>
   c_count (remove_file_step demo_ops ''/a'' demo_state) = c_count demo_state + 1 \<and>
   shutil_rmtree demo_ops (c_fs demo_state) ''/a'' = (Inr (), [''/locked'', ''/b'', ''/d'', ''/keep'']) \<and>
   c_count (remove_dir_step demo_ops ''/a'' demo_state) = c_count demo_state + 1 \<and>
   c_out (cleanup_loops demo_ops [''/a'', ''/gone'', ''/locked'', ''/b''] [''/d'', ''/nodir''] demo_state) =
     [''Removed file: /a'', ''File not found: /gone'',
      ''Error removing file /locked: Permission denied'', ''Removed file: /b'',
      ''Removed directory: /d'', ''Directory not found: /nodir''] \<and>
   c_count (cleanup_loops demo_ops [''/a'', ''/gone'', ''/locked'', ''/b''] [''/d'', ''/nodir''] demo_state) = 3 \<and>
   \<not> (\<exists>q \<in> set (files_to_remove @ dirs_to_remove). os_path_exists demo_ops (c_fs demo_state) q) \<and>
   cleanup_loops demo_ops files_to_remove dirs_to_remove demo_state =
     demo_state\<lparr>c_out := c_out demo_state @ map (\<lambda>q. ''File not found: '' @ q) files_to_remove
                               @ map (\<lambda>q. ''Directory not found: '' @ q) dirs_to_remove\<rparr> \<and>
   c_count (cleanup_temp_files demo_ops (c_fs demo_state)) = 0"
proof -
  have a: "\<not> os_path_exists demo_ops (c_fs demo_state) ''/gone''" by code_simp
  have b: "os_path_exists demo_ops (c_fs demo_state) ''/locked''" by code_simp
  have c: "os_remove demo_ops (c_fs demo_state) ''/locked'' =
     (Inl (OSError ''Permission denied''), c_fs demo_state)" by (simp add: demo_ops_def)
  have d: "os_path_exists demo_ops (c_fs demo_state) ''/a''" by code_simp
  have e: "os_remove demo_ops (c_fs demo_state) ''/a'' = (Inr (), [''/locked'', ''/b'', ''/d'', ''/keep''])"
    by (simp add: demo_ops_def demo_state_def)
  have f: "shutil_rmtree demo_ops (c_fs demo_state) ''/a'' = (Inr (), [''/locked'', ''/b'', ''/d'', ''/keep''])"
    by (simp add: demo_ops_def demo_state_def)
  have g: "c_out (cleanup_loops demo_ops [''/a'', ''/gone'', ''/locked'', ''/b''] [''/d'', ''/nodir''] demo_state) =
     [''Removed file: /a'', ''File not found: /gone'',
      ''Error removing file /locked: Permission denied'', ''Removed file: /b'',
      ''Removed directory: /d'', ''Directory not found: /nodir'']"
    by code_simp
  have o: "c_out demo_state = []" "c_count demo_state = 0" by (simp_all add: demo_state_def)
  have h: "\<forall>q \<in> set (files_to_remove @ dirs_to_remove). \<not> os_path_exists demo_ops (c_fs demo_state) q"
    by code_simp
  have n: "length (filter removed_notice
     [''Removed file: /a'', ''File not found: /gone'',
      ''Error removing file /locked: Permission denied'', ''Removed file: /b'',
      ''Removed directory: /d'', ''Directory not found: /nodir'']) = 3"
    by code_simp
  have i: "c_count (cleanup_loops demo_ops [''/a'', ''/gone'', ''/locked'', ''/b''] [''/d'', ''/nodir''] demo_state) = 3"
    using cleanup_absent_skipped [of demo_ops demo_state _ _ _ _ "[''/a'', ''/gone'', ''/locked'', ''/b'']"
        "[''/d'', ''/nodir'']"] g o n
    by simp
  have j: "cleanup_loops demo_ops files_to_remove dirs_to_remove demo_state =
     demo_state\<lparr>c_out := c_out demo_state @ map (\<lambda>q. ''File not found: '' @ q) files_to_remove
                               @ map (\<lambda>q. ''Directory not found: '' @ q) dirs_to_remove\<rparr>"
    using cleanup_absent_skipped [of demo_ops demo_state _ _ _ _ files_to_remove dirs_to_remove] h
    by blast
  have st0: "\<lparr>c_fs = c_fs demo_state, c_count = 0, c_out = []\<rparr> = demo_state"
    by (simp add: demo_state_def)
  have k: "c_count (cleanup_temp_files demo_ops (c_fs demo_state)) = 0"
    by (simp add: cleanup_temp_files_def Let_def st0 j o)
  have s1: "remove_file_step demo_ops ''/gone'' demo_state =
     demo_state\<lparr>c_out := c_out demo_state @ [''File not found: /gone'']\<rparr>"
    "remove_dir_step demo_ops ''/gone'' demo_state =
     demo_state\<lparr>c_out := c_out demo_state @ [''Directory not found: /gone'']\<rparr>"
    using cleanup_absent_skipped [of demo_ops demo_state "''/gone''"] a by simp_all
  have s2: "c_count (remove_file_step demo_ops ''/locked'' demo_state) = c_count demo_state"
    using cleanup_absent_skipped [of demo_ops demo_state "''/locked''" "OSError ''Permission denied''"
        "c_fs demo_state"] b c by blast
  have s3: "c_count (remove_file_step demo_ops ''/a'' demo_state) = c_count demo_state + 1"
    using cleanup_absent_skipped [of demo_ops demo_state "''/a''" _ "[''/locked'', ''/b'', ''/d'', ''/keep'']" "()"]
      d e by blast
  have s4: "c_count (remove_dir_step demo_ops ''/a'' demo_state) = c_count demo_state + 1"
    using cleanup_absent_skipped [of demo_ops demo_state "''/a''" _ "[''/locked'', ''/b'', ''/d'', ''/keep'']" "()"]
      d f by blast
  have h': "\<not> (\<exists>q \<in> set (files_to_remove @ dirs_to_remove). os_path_exists demo_ops (c_fs demo_state) q)"
    using h by blast
  show ?thesis using a b c d e f g h' i j k s1 s2 s3 s4 by blast
qed

section \<open>Properties of the file mover\<close>

lemma digits_val_str_nat: "digits_val (str_nat n) = n"
proof (induction n rule: str_nat.induct)
  case (1 n)
  show ?case
  proof (cases "n < 10")
    case True
    then show ?thesis by (simp add: str_nat.simps [of n] digits_val_def)
  next
    case False
    then have "digits_val (str_nat (n div 10)) = n div 10" using "1" by simp
    then have "digits_val (str_nat n) = (n div 10) * 10 + n mod 10"
      using False by (simp add: str_nat.simps [of n] digits_val_def)
    then show ?thesis by simp
  qed
qed

lemma str_nat_inj: "str_nat a = str_nat b \<Longrightarrow> a = b"
  by (metis digits_val_str_nat)

lemma numbered_path_inj:
  "os_path_join dir (numbered_name stem suffix a) = os_path_join dir (numbered_name stem suffix b)
   \<Longrightarrow> a = b"
  by (cases stem) (auto simp: os_path_join_def numbered_name_def startswith_def dest: str_nat_inj
      split: if_splits)

lemma finite_numbered:
  "finite {k. c \<le> k \<and> path_exists fs (os_path_join dir (numbered_name stem suffix k))}"
proof -
  have "inj (\<lambda>k. os_path_join dir (numbered_name stem suffix k))"
    by (rule injI) (rule numbered_path_inj)
  then have "finite ((\<lambda>k. os_path_join dir (numbered_name stem suffix k)) -` set (map fst fs))"
    by (intro finite_vimageI) simp_all
  moreover have "{k. c \<le> k \<and> path_exists fs (os_path_join dir (numbered_name stem suffix k))}
      \<subseteq> (\<lambda>k. os_path_join dir (numbered_name stem suffix k)) -` set (map fst fs)"
    by (auto simp: path_exists_def)
  ultimately show ?thesis by (rule rev_finite_subset)
qed

lemma card_numbered_step:
  "card {k. c \<le> k \<and> path_exists fs (os_path_join dir (numbered_name stem suffix k))} =
   card {k. Suc c \<le> k \<and> path_exists fs (os_path_join dir (numbered_name stem suffix k))} +
   (if path_exists fs (os_path_join dir (numbered_name stem suffix c)) then 1 else 0)"
proof -
  let ?A = "\<lambda>c. {k. c \<le> k \<and> path_exists fs (os_path_join dir (numbered_name stem suffix k))}"
  show ?thesis
  proof (cases "path_exists fs (os_path_join dir (numbered_name stem suffix c))")
    case True
    have "?A c = insert c (?A (Suc c))" using True by (auto simp: le_Suc_eq intro: Suc_leI) 
    moreover have "c \<notin> ?A (Suc c)" by simp
    ultimately show ?thesis using True finite_numbered [of "Suc c" fs dir stem suffix] by simp
  next
    case False
    have "?A c = ?A (Suc c)" using False by (auto simp: Suc_le_eq le_less)
    then show ?thesis using False by simp
  qed
qed

termination dest_loop
proof (relation "measure (\<lambda>(fs, dir, stem, suffix, dest_path, counter).
    card {k. counter \<le> k \<and> path_exists fs (os_path_join dir (numbered_name stem suffix k))} +
    (if path_exists fs dest_path then 1 else 0))")
  show "wf (measure (\<lambda>(fs, dir, stem, suffix, dest_path, counter).
    card {k. counter \<le> k \<and> path_exists fs (os_path_join dir (numbered_name stem suffix k))} +
    (if path_exists fs dest_path then 1 else 0)))"
    by simp
next
  fix fs :: file_store and dir stem suffix dest_path :: string and counter :: nat
  assume "path_exists fs dest_path"
  then show "((fs, dir, stem, suffix, os_path_join dir (numbered_name stem suffix counter), counter + 1),
         (fs, dir, stem, suffix, dest_path, counter))
       \<in> measure (\<lambda>(fs, dir, stem, suffix, dest_path, counter).
    card {k. counter \<le> k \<and> path_exists fs (os_path_join dir (numbered_name stem suffix k))} +
    (if path_exists fs dest_path then 1 else 0))"
    using card_numbered_step [of counter fs dir stem suffix] by simp
qed

declare dest_loop.simps [simp del]

lemma dest_loop_spec:
  "\<not> path_exists fs (dest_loop fs dir stem suffix dest counter) \<and>
   (if \<not> path_exists fs dest then dest_loop fs dir stem suffix dest counter = dest
    else \<exists>k \<ge> counter.
           dest_loop fs dir stem suffix dest counter = os_path_join dir (numbered_name stem suffix k) \<and>
           (\<forall>j. counter \<le> j \<and> j < k \<longrightarrow>
                path_exists fs (os_path_join dir (numbered_name stem suffix j))))"
proof (induction fs dir stem suffix dest counter rule: dest_loop.induct)
  case (1 fs dir stem suffix dest counter)
  let ?next = "os_path_join dir (numbered_name stem suffix counter)"
  show ?case
  proof (cases "path_exists fs dest")
    case False
    then show ?thesis by (simp add: dest_loop.simps [of fs dir stem suffix dest])
  next
    case True
    have eq: "dest_loop fs dir stem suffix dest counter = dest_loop fs dir stem suffix ?next (counter + 1)"
      using True by (simp add: dest_loop.simps [of fs dir stem suffix dest])
    note IH = "1.IH" [OF True]
    show ?thesis
    proof (cases "path_exists fs ?next")
      case False
      with IH have r: "dest_loop fs dir stem suffix ?next (counter + 1) = ?next" by simp
      have "\<exists>k \<ge> counter.
           ?next = os_path_join dir (numbered_name stem suffix k) \<and>
           (\<forall>j. counter \<le> j \<and> j < k \<longrightarrow>
                path_exists fs (os_path_join dir (numbered_name stem suffix j)))"
        by (intro exI [of _ counter]) auto
      moreover have res: "dest_loop fs dir stem suffix dest counter = ?next" using eq r by simp
      ultimately show ?thesis using True False by (simp add: res)
    next
      case nx: True
      with IH obtain k where k: "counter + 1 \<le> k"
          "dest_loop fs dir stem suffix ?next (counter + 1) = os_path_join dir (numbered_name stem suffix k)"
          "\<forall>j. counter + 1 \<le> j \<and> j < k \<longrightarrow>
                path_exists fs (os_path_join dir (numbered_name stem suffix j))"
        by auto
      have all: "\<forall>j. counter \<le> j \<and> j < k \<longrightarrow>
                path_exists fs (os_path_join dir (numbered_name stem suffix j))"
      proof (intro allI impI)
        fix j assume j: "counter \<le> j \<and> j < k"
        show "path_exists fs (os_path_join dir (numbered_name stem suffix j))"
        proof (cases "j = counter")
          case True
          with nx show ?thesis by simp
        next
          case False
          with j have "counter + 1 \<le> j \<and> j < k" by simp
          with k(3) show ?thesis by blast
        qed
      qed
      have "\<exists>k' \<ge> counter.
           dest_loop fs dir stem suffix dest counter = os_path_join dir (numbered_name stem suffix k') \<and>
           (\<forall>j. counter \<le> j \<and> j < k' \<longrightarrow>
                path_exists fs (os_path_join dir (numbered_name stem suffix j)))"
        using k(1,2) all eq by (intro exI [of _ k]) simp
      moreover have "\<not> path_exists fs (dest_loop fs dir stem suffix dest counter)"
        using IH eq by simp
      ultimately show ?thesis using True by simp
    qed
  qed
qed

lemma map_of_filter_keys:
  "map_of (filter (\<lambda>entry. P (fst entry)) fs) p = (if P p then map_of fs p else None)"
  by (induction fs) auto

lemma path_exists_map_of: "path_exists fs p \<longleftrightarrow> map_of fs p \<noteq> None"
  by (simp add: path_exists_def map_of_eq_None_iff)

lemma chosen_dest_fresh: "\<not> path_exists fs (chosen_dest fs file_path)"
  unfolding chosen_dest_def using dest_loop_spec by blast

lemma shutil_move_keeps:
  assumes "shutil_move fault fs src dst = Inr fs'" and "p \<noteq> src" and "p \<noteq> dst"
  shows "map_of fs' p = map_of fs p"
proof -
  from assms(1) obtain content where
    "fs' = (dst, content) # filter (\<lambda>entry. fst entry \<noteq> src \<and> fst entry \<noteq> dst) fs"
    by (auto simp: shutil_move_def split: option.splits)
  then show ?thesis
    using assms(2,3) map_of_filter_keys [of "\<lambda>k. k \<noteq> src \<and> k \<noteq> dst" fs p] by simp
qed

lemma move_step_keeps:
  assumes "map_of (m_fs st) p = Some c" and "p \<noteq> os_path_join base_path rel"
  shows "map_of (m_fs (move_step fault rel st)) p = Some c"
proof (cases "path_exists (m_fs st) (os_path_join base_path rel)")
  case False
  with assms show ?thesis by (simp add: move_step_def)
next
  case True
  let ?src = "os_path_join base_path rel"
  let ?dst = "chosen_dest (m_fs st) ?src"
  have "path_exists (m_fs st) p" using assms(1) by (simp add: path_exists_map_of)
  then have ne: "p \<noteq> ?dst" using chosen_dest_fresh [of "m_fs st" ?src] by auto
  show ?thesis
  proof (cases "shutil_move fault (m_fs st) ?src ?dst")
    case (Inl e)
    with True assms show ?thesis by (simp add: move_step_def Let_def)
  next
    case (Inr fs')
    then have "map_of fs' p = map_of (m_fs st) p"
      using assms(2) ne by (rule shutil_move_keeps)
    with True Inr assms show ?thesis by (simp add: move_step_def Let_def)
  qed
qed

lemma move_all_keeps:
  "map_of (m_fs st) p = Some c \<Longrightarrow> p \<notin> set (map (os_path_join base_path) files) \<Longrightarrow>
   map_of (m_fs (move_all fault files st)) p = Some c"
proof (induction files arbitrary: st)
  case Nil
  then show ?case by (simp add: move_all_def)
next
  case (Cons rel files)
  have "map_of (m_fs (move_step fault rel st)) p = Some c"
    using Cons.prems by (intro move_step_keeps) auto
  moreover have "p \<notin> set (map (os_path_join base_path) files)" using Cons.prems by simp
  ultimately have "map_of (m_fs (move_all fault files (move_step fault rel st))) p = Some c"
    by (rule Cons.IH)
  then show ?case by (simp add: move_all_def)
qed

text \<open>
  Claim C10. The destination the mover settles on never exists beforehand: it is the
  plain name when that is free, and otherwise the name with the smallest counter from 1
  on whose path is free. Hence a move leaves every other existing file with its content,
  over one round and over the whole list, and a successful move puts the source's
  content at the fresh path.
\<close>

theorem mover_never_overwrites:
  "\<not> path_exists fs (chosen_dest fs file_path) \<and>
   (\<not> path_exists fs (os_path_join consolidation_path (basename file_path)) \<longrightarrow>
      chosen_dest fs file_path = os_path_join consolidation_path (basename file_path)) \<and>
   (path_exists fs (os_path_join consolidation_path (basename file_path)) \<longrightarrow>
      (\<exists>k \<ge> 1.
         chosen_dest fs file_path =
           os_path_join consolidation_path
             (numbered_name (path_stem (basename file_path)) (path_suffix (basename file_path)) k) \<and>
         (\<forall>j. 1 \<le> j \<and> j < k \<longrightarrow>
            path_exists fs
              (os_path_join consolidation_path
                 (numbered_name (path_stem (basename file_path)) (path_suffix (basename file_path)) j))))) \<and>
   (map_of (m_fs st) p = Some c \<and> p \<noteq> os_path_join base_path rel \<longrightarrow>
      map_of (m_fs (move_step fault rel st)) p = Some c) \<and>
   (map_of (m_fs st) p = Some c \<and> p \<notin> set (map (os_path_join base_path) files) \<longrightarrow>
      map_of (m_fs (move_all fault files st)) p = Some c) \<and>
   (map_of (m_fs st) (os_path_join base_path rel) = Some c' \<and>
    fault (os_path_join base_path rel) (chosen_dest (m_fs st) (os_path_join base_path rel)) = None \<longrightarrow>
      map_of (m_fs (move_step fault rel st)) (chosen_dest (m_fs st) (os_path_join base_path rel)) = Some c' \<and>
      moved_count (move_step fault rel st) = moved_count st + 1)"
proof -
  let ?name = "basename file_path"
  let ?d0 = "os_path_join consolidation_path ?name"
  note spec = dest_loop_spec [of fs consolidation_path "path_stem ?name" "path_suffix ?name" ?d0 1]
  have a: "\<not> path_exists fs (chosen_dest fs file_path)" by (rule chosen_dest_fresh)
  have b: "\<not> path_exists fs ?d0 \<longrightarrow> chosen_dest fs file_path = ?d0"
    unfolding chosen_dest_def using spec by (auto split: if_splits)
  have c1: "path_exists fs ?d0 \<longrightarrow>
      (\<exists>k \<ge> 1.
         chosen_dest fs file_path =
           os_path_join consolidation_path (numbered_name (path_stem ?name) (path_suffix ?name) k) \<and>
         (\<forall>j. 1 \<le> j \<and> j < k \<longrightarrow>
            path_exists fs
              (os_path_join consolidation_path (numbered_name (path_stem ?name) (path_suffix ?name) j))))"
    unfolding chosen_dest_def using spec by (auto split: if_splits)
  have d: "map_of (m_fs st) p = Some c \<and> p \<noteq> os_path_join base_path rel \<longrightarrow>
      map_of (m_fs (move_step fault rel st)) p = Some c"
    using move_step_keeps by blast
  have e: "map_of (m_fs st) p = Some c \<and> p \<notin> set (map (os_path_join base_path) files) \<longrightarrow>
      map_of (m_fs (move_all fault files st)) p = Some c"
    using move_all_keeps by blast
  have f: "map_of (m_fs st) (os_path_join base_path rel) = Some c' \<and>
    fault (os_path_join base_path rel) (chosen_dest (m_fs st) (os_path_join base_path rel)) = None \<longrightarrow>
      map_of (m_fs (move_step fault rel st)) (chosen_dest (m_fs st) (os_path_join base_path rel)) = Some c' \<and>
      moved_count (move_step fault rel st) = moved_count st + 1"
  proof
    assume h: "map_of (m_fs st) (os_path_join base_path rel) = Some c' \<and>
      fault (os_path_join base_path rel) (chosen_dest (m_fs st) (os_path_join base_path rel)) = None"
    then have ex: "path_exists (m_fs st) (os_path_join base_path rel)"
      by (simp add: path_exists_map_of)
    show "map_of (m_fs (move_step fault rel st)) (chosen_dest (m_fs st) (os_path_join base_path rel)) = Some c' \<and>
      moved_count (move_step fault rel st) = moved_count st + 1"
      using h ex by (simp add: move_step_def Let_def shutil_move_def)
  qed
  show ?thesis using a b c1 d e f by blast
qed

theorem mover_never_overwrites_witness:
  "path_exists demo_store (os_path_join consolidation_path (basename demo_src)) \<and>
   chosen_dest demo_store demo_src =
     ''/Users/max/Development/active/fullmind/temp_consolidation/cleanup_temp_files_2.py'' \<and>
   \<not> path_exists demo_store (chosen_dest demo_store demo_src) \<and>
   \<not> path_exists demo_store (os_path_join consolidation_path (basename ''/x/fresh.md'')) \<and>
   chosen_dest demo_store ''/x/fresh.md'' = os_path_join consolidation_path (basename ''/x/fresh.md'') \<and>
   map_of (m_fs demo_start) demo_old = Some ''old script'' \<and>
   demo_old \<notin> set (map (os_path_join base_path) files_to_move) \<and>
   map_of (m_fs (move_all no_fault files_to_move demo_start)) demo_old = Some ''old script'' \<and>
   map_of (m_fs (move_step no_fault ''cleanup_temp_files.py'' demo_start)) demo_old = Some ''old script'' \<and>
   map_of (m_fs demo_start) (os_path_join base_path ''cleanup_temp_files.py'') = Some ''new script'' \<and>
   map_of (m_fs (move_step no_fault ''cleanup_temp_files.py'' demo_start))
     ''/Users/max/Development/active/fullmind/temp_consolidation/cleanup_temp_files_2.py'' =
     Some ''new script'' \<and>
   moved_count (move_step no_fault ''cleanup_temp_files.py'' demo_start) = 1"
proof -
  have a: "path_exists demo_store (os_path_join consolidation_path (basename demo_src))" by code_simp
  have b: "chosen_dest demo_store demo_src =
     ''/Users/max/Development/active/fullmind/temp_consolidation/cleanup_temp_files_2.py''"
    by code_simp
  have c: "\<not> path_exists demo_store (os_path_join consolidation_path (basename ''/x/fresh.md''))"
    by code_simp
  have d: "map_of (m_fs demo_start) demo_old = Some ''old script''" by code_simp
  have e: "demo_old \<notin> set (map (os_path_join base_path) files_to_move)" by code_simp
  have f: "demo_old \<noteq> os_path_join base_path ''cleanup_temp_files.py''" by code_simp
  have g: "map_of (m_fs demo_start) (os_path_join base_path ''cleanup_temp_files.py'') = Some ''new script''"
    by code_simp
  have src: "os_path_join base_path ''cleanup_temp_files.py'' = demo_src" by code_simp
  have fs: "m_fs demo_start = demo_store" "moved_count demo_start = 0" by (simp_all add: demo_start_def)
  have r1: "\<not> path_exists demo_store (chosen_dest demo_store demo_src)"
    using mover_never_overwrites [of demo_store demo_src] by blast
  have r2: "chosen_dest demo_store ''/x/fresh.md'' = os_path_join consolidation_path (basename ''/x/fresh.md'')"
    using mover_never_overwrites [of demo_store "''/x/fresh.md''"] c by blast
  have r3: "map_of (m_fs (move_all no_fault files_to_move demo_start)) demo_old = Some ''old script''"
    using mover_never_overwrites [of _ _ demo_start demo_old "''old script''" _ no_fault files_to_move] d e
    by blast
  have r4: "map_of (m_fs (move_step no_fault ''cleanup_temp_files.py'' demo_start)) demo_old = Some ''old script''"
    using mover_never_overwrites [of _ _ demo_start demo_old "''old script''" "''cleanup_temp_files.py''" no_fault]
      d f by blast
  have nf: "no_fault (os_path_join base_path ''cleanup_temp_files.py'')
      (chosen_dest (m_fs demo_start) (os_path_join base_path ''cleanup_temp_files.py'')) = None"
    by (simp add: no_fault_def)
  have r5: "map_of (m_fs (move_step no_fault ''cleanup_temp_files.py'' demo_start))
      (chosen_dest (m_fs demo_start) (os_path_join base_path ''cleanup_temp_files.py'')) = Some ''new script'' \<and>
      moved_count (move_step no_fault ''cleanup_temp_files.py'' demo_start) = moved_count demo_start + 1"
    using mover_never_overwrites [of _ _ demo_start _ _ "''cleanup_temp_files.py''" no_fault _ "''new script''"]
      g nf by blast
  have r6: "map_of (m_fs (move_step no_fault ''cleanup_temp_files.py'' demo_start))
     ''/Users/max/Development/active/fullmind/temp_consolidation/cleanup_temp_files_2.py'' =
     Some ''new script''"
    using r5 by (simp add: fs src b)
  have r7: "moved_count (move_step no_fault ''cleanup_temp_files.py'' demo_start) = 1"
    using r5 by (simp add: fs)
  show ?thesis using a b c d e g r1 r2 r3 r4 r6 r7 by blast
qed

end
